theory Spec2Isabelle
  imports Complex_Main "HOL-Library.AList"
begin

section \<open>The decoded payload\<close>

text \<open>
  \<^verbatim>\<open>json.Unmarshal\<close> into \<^verbatim>\<open>map[string]interface{}\<close> yields a tree whose nodes are
  \<^verbatim>\<open>nil\<close>, \<^verbatim>\<open>bool\<close>, \<^verbatim>\<open>float64\<close>, \<^verbatim>\<open>string\<close>, \<^verbatim>\<open>[]interface{}\<close> and
  \<^verbatim>\<open>map[string]interface{}\<close>. A decoded number is a finite \<^verbatim>\<open>float64\<close> (the decoder
  rejects anything else), hence a rational; the program only copies such numbers and
  compares one of them with \<open>1\<close>, so they are modelled as \<^typ>\<open>rat\<close>. An object is an
  association list read with \<^const>\<open>map_of\<close>: the program only looks keys up.
\<close>

datatype json =
    JNull
  | JBool bool
  | JNum rat
  | JStr string
  | JArr "json list"
  | JObj "(string \<times> json) list"

text \<open>
  \<^verbatim>\<open>parseStats\<close> either returns a snapshot, or returns the decoder's error, or does not
  return because an unchecked type assertion \<^verbatim>\<open>x.(T)\<close> panics. \<^verbatim>\<open>Monitor.Run\<close> can
  also panic by calling a method of a nil interface value.
\<close>

datatype error =
    UnmarshalError string
  | TypeAssertionPanic
  | NilPointerPanic

definition and_then :: "error + 'a \<Rightarrow> ('a \<Rightarrow> error + 'b) \<Rightarrow> error + 'b" where
  "and_then m f = (case m of Inl e \<Rightarrow> Inl e | Inr x \<Rightarrow> f x)"

text \<open>
  The three assertions of the source. Indexing a Go map at an absent key gives \<^verbatim>\<open>nil\<close>,
  as does a JSON \<^verbatim>\<open>null\<close>; asserting any type on \<^verbatim>\<open>nil\<close> panics.
\<close>

fun assert_string :: "json option \<Rightarrow> error + string" where
  "assert_string (Some (JStr s)) = Inr s"
| "assert_string _ = Inl TypeAssertionPanic"

fun assert_float64 :: "json option \<Rightarrow> error + rat" where
  "assert_float64 (Some (JNum x)) = Inr x"
| "assert_float64 _ = Inl TypeAssertionPanic"

fun assert_map :: "json option \<Rightarrow> error + (string \<times> json) list" where
  "assert_map (Some (JObj kvs)) = Inr kvs"
| "assert_map _ = Inl TypeAssertionPanic"

section \<open>The topology (exporter\_config.go)\<close>

record Server =
  IP :: string
  Alias :: string

record Config =
  ConfigName :: string
  Hash :: string
  HashTag :: string
  Distribution :: string
  AutoEjectHosts :: bool
  Timeout :: int
  Protocol :: string
  Redis :: bool
  Servers :: "Server list"

section \<open>The snapshot (exporter\_stats.go)\<close>

text \<open>
  The three structs of the source. \<^verbatim>\<open>ServiceStats\<close> repeats the field names
  \<^verbatim>\<open>ExpectedAvailable\<close>, \<^verbatim>\<open>NotAvailable\<close> of \<^verbatim>\<open>TwemproxyStats\<close> and \<^verbatim>\<open>Servers\<close> of
  \<^verbatim>\<open>Config\<close>; here they carry the prefix \<open>svc\<close>. Go's \<^verbatim>\<open>int\<close> counters only count
  list elements, so they cannot wrap and are \<^typ>\<open>int\<close>. The two output maps are
  association lists written with \<^const>\<open>AList.update\<close>, which overwrites the entry of
  a key that is already there, as a map assignment does.
\<close>

record ServerStats =
  Host :: string
  HostAlias :: string
  ServerEOF :: rat
  ServerErr :: rat
  ServerTimedout :: rat
  ServerConnections :: rat
  ServerEjectedAt :: rat
  Requests :: rat
  RequestBytes :: rat
  Responses :: rat
  ResponseBytes :: rat
  InQueue :: rat
  InQueueBytes :: rat
  OutQueue :: rat
  OutQueueBytes :: rat

record ServiceStats =
  Name :: string
  ClientEOF :: rat
  ClientErr :: rat
  ClientConnections :: rat
  ServerEjects :: rat
  ForwardError :: rat
  Fragments :: rat
  svcExpectedAvailable :: int
  svcNotAvailable :: int
  svcServers :: "(string \<times> ServerStats) list"

record TwemproxyStats =
  Service :: string
  Source :: string
  TotalConnections :: rat
  CurrentConnections :: rat
  ExpectedAvailable :: int
  NotAvailable :: int
  Services :: "(string \<times> ServiceStats) list"

text \<open>The zero value \<^verbatim>\<open>TwemproxyStats{}\<close>, returned next to the decoder's error.\<close>

definition zero_TwemproxyStats :: TwemproxyStats where
  "zero_TwemproxyStats =
     \<lparr>Service = [], Source = [], TotalConnections = 0, CurrentConnections = 0,
      ExpectedAvailable = 0, NotAvailable = 0, Services = []\<rparr>"

section \<open>parseStats\<close>

text \<open>A loop whose body may panic: the first panic ends it.\<close>

fun for_each :: "('a \<Rightarrow> 's \<Rightarrow> error + 's) \<Rightarrow> 'a list \<Rightarrow> 's \<Rightarrow> error + 's" where
  "for_each body [] s = Inr s"
| "for_each body (x # xs) s = and_then (body x s) (for_each body xs)"

text \<open>Lines 93 to 98: the key under which a backend is looked up.\<close>

definition host_of :: "Server \<Rightarrow> string" where
  "host_of val = (if Alias val \<noteq> [] then Alias val else IP val)"

text \<open>Lines 106 to 122: the struct literal, every field an unchecked assertion.\<close>

definition new_ServerStats ::
  "string \<Rightarrow> string \<Rightarrow> (string \<times> json) list \<Rightarrow> error + ServerStats" where
  "new_ServerStats host hostAlias srv =
     and_then (assert_float64 (map_of srv ''server_eof'')) (\<lambda>server_eof.
     and_then (assert_float64 (map_of srv ''server_err'')) (\<lambda>server_err.
     and_then (assert_float64 (map_of srv ''server_timedout'')) (\<lambda>server_timedout.
     and_then (assert_float64 (map_of srv ''server_connections'')) (\<lambda>server_connections.
     and_then (assert_float64 (map_of srv ''server_ejected_at'')) (\<lambda>server_ejected_at.
     and_then (assert_float64 (map_of srv ''requests'')) (\<lambda>requests.
     and_then (assert_float64 (map_of srv ''request_bytes'')) (\<lambda>request_bytes.
     and_then (assert_float64 (map_of srv ''responses'')) (\<lambda>responses.
     and_then (assert_float64 (map_of srv ''response_bytes'')) (\<lambda>response_bytes.
     and_then (assert_float64 (map_of srv ''in_queue'')) (\<lambda>in_queue.
     and_then (assert_float64 (map_of srv ''in_queue_bytes'')) (\<lambda>in_queue_bytes.
     and_then (assert_float64 (map_of srv ''out_queue'')) (\<lambda>out_queue.
     and_then (assert_float64 (map_of srv ''out_queue_bytes'')) (\<lambda>out_queue_bytes.
     Inr \<lparr>Host = host, HostAlias = hostAlias,
          ServerEOF = server_eof, ServerErr = server_err,
          ServerTimedout = server_timedout, ServerConnections = server_connections,
          ServerEjectedAt = server_ejected_at, Requests = requests,
          RequestBytes = request_bytes, Responses = responses,
          ResponseBytes = response_bytes, InQueue = in_queue,
          InQueueBytes = in_queue_bytes, OutQueue = out_queue,
          OutQueueBytes = out_queue_bytes\<rparr>)))))))))))))"

text \<open>
  Lines 92 to 130: the body of the loop over the declared backends of one service. It
  updates \<^verbatim>\<open>twemp\<close> and \<^verbatim>\<open>serviceStats\<close>, which are the loop's state.
\<close>

definition server_body ::
  "(string \<times> json) list \<Rightarrow> Server \<Rightarrow> TwemproxyStats \<times> ServiceStats
     \<Rightarrow> error + TwemproxyStats \<times> ServiceStats" where
  "server_body service val st =
     (case st of (twemp, serviceStats) \<Rightarrow>
       (let host = host_of val; hostAlias = IP val in
        case map_of service host of
          None \<Rightarrow>
            Inr (twemp\<lparr>NotAvailable := NotAvailable twemp + 1\<rparr>,
                 serviceStats\<lparr>svcNotAvailable := svcNotAvailable serviceStats + 1\<rparr>)
        | Some se \<Rightarrow>
            and_then (assert_map (Some se)) (\<lambda>srv.
            and_then (new_ServerStats host hostAlias srv) (\<lambda>serverStats.
              (let serviceStats = serviceStats
                     \<lparr>svcServers := AList.update host serverStats (svcServers serviceStats)\<rparr>
               in if ServerConnections serverStats < 1
                  then Inr (twemp\<lparr>NotAvailable := NotAvailable twemp + 1\<rparr>,
                            serviceStats\<lparr>svcNotAvailable := svcNotAvailable serviceStats + 1\<rparr>)
                  else Inr (twemp, serviceStats))))))"

text \<open>
  Lines 70 to 132: the body of the loop over the topology. The topology is a Go map;
  it is given as the list of its entries (distinct keys), so \<^verbatim>\<open>config[key]\<close> is the
  second component of the entry. Go ranges over a map in no fixed order; the list may
  be in any order, and what is proved below is proved for every list.
\<close>

definition service_body ::
  "(string \<times> json) list \<Rightarrow> string \<times> Config \<Rightarrow> TwemproxyStats \<Rightarrow> error + TwemproxyStats" where
  "service_body stats entry twemp =
     (case entry of (key, conf) \<Rightarrow>
       (let serviceStats =
              \<lparr>Name = key, ClientEOF = 0, ClientErr = 0, ClientConnections = 0,
               ServerEjects = 0, ForwardError = 0, Fragments = 0,
               svcExpectedAvailable = int (length (Servers conf)),
               svcNotAvailable = 0, svcServers = []\<rparr>
        in case map_of stats key of
          None \<Rightarrow> Inr twemp
        | Some s \<Rightarrow>
            (let twemp = twemp
                   \<lparr>ExpectedAvailable := ExpectedAvailable twemp + int (length (Servers conf))\<rparr>
             in
             and_then (assert_map (Some s)) (\<lambda>service.
             and_then (assert_float64 (map_of service ''client_eof'')) (\<lambda>client_eof.
             and_then (assert_float64 (map_of service ''client_err'')) (\<lambda>client_err.
             and_then (assert_float64 (map_of service ''client_connections'')) (\<lambda>client_connections.
             and_then (assert_float64 (map_of service ''server_ejects'')) (\<lambda>server_ejects.
             and_then (assert_float64 (map_of service ''forward_error'')) (\<lambda>forward_error.
             and_then (assert_float64 (map_of service ''fragments'')) (\<lambda>fragments.
             and_then (for_each (server_body service) (Servers conf)
                         (twemp, serviceStats
                            \<lparr>ClientEOF := client_eof, ClientErr := client_err,
                             ClientConnections := client_connections,
                             ServerEjects := server_ejects,
                             ForwardError := forward_error, Fragments := fragments\<rparr>))
               (\<lambda>st. case st of (twemp, serviceStats) \<Rightarrow>
                  Inr (twemp\<lparr>Services :=
                         AList.update key serviceStats (Services twemp)\<rparr>))))))))))))"

text \<open>Lines 61 to 133: \<^verbatim>\<open>parseStats\<close> after the decoder has succeeded.\<close>

definition parse_decoded ::
  "(string \<times> json) list \<Rightarrow> (string \<times> Config) list \<Rightarrow> error + TwemproxyStats" where
  "parse_decoded stats config =
     and_then (assert_string (map_of stats ''service'')) (\<lambda>service.
     and_then (assert_string (map_of stats ''source'')) (\<lambda>source.
     and_then (assert_float64 (map_of stats ''total_connections'')) (\<lambda>total_connections.
     and_then (assert_float64 (map_of stats ''curr_connections'')) (\<lambda>curr_connections.
       for_each (service_body stats) config
         \<lparr>Service = service, Source = source,
          TotalConnections = total_connections,
          CurrentConnections = curr_connections,
          ExpectedAvailable = 0, NotAvailable = 0, Services = []\<rparr>))))"

text \<open>
  \<^verbatim>\<open>parseStats\<close>. The decoder is the library's, so it is a parameter: it gives the
  decoded object or an error message. The source also logs the decoder's error; the
  log has no part in the result.
\<close>

definition parseStats ::
  "(string \<Rightarrow> string + (string \<times> json) list) \<Rightarrow> string \<Rightarrow> (string \<times> Config) list
     \<Rightarrow> error + TwemproxyStats" where
  "parseStats unmarshal statsContent config =
     (case unmarshal statsContent of
        Inl err \<Rightarrow> Inl (UnmarshalError err)
      | Inr stats \<Rightarrow> parse_decoded stats config)"

section \<open>Names used in the statements\<close>

text \<open>The keys asserted at lines 85 to 90 and at lines 109 to 121 of the source.\<close>

definition service_fields :: "string list" where
  "service_fields =
     [''client_eof'', ''client_err'', ''client_connections'', ''server_ejects'',
      ''forward_error'', ''fragments'']"

definition server_fields :: "string list" where
  "server_fields =
     [''server_eof'', ''server_err'', ''server_timedout'', ''server_connections'',
      ''server_ejected_at'', ''requests'', ''request_bytes'', ''responses'',
      ''response_bytes'', ''in_queue'', ''in_queue_bytes'', ''out_queue'',
      ''out_queue_bytes'']"

text \<open>
  The two tests after which the source increments both counters, read off a service's
  sub-document: the backend's key is absent (line 100), or its entry reports fewer than
  one connection (line 126).
\<close>

definition not_available :: "(string \<times> json) list \<Rightarrow> Server \<Rightarrow> bool" where
  "not_available service val =
     (case map_of service (host_of val) of
        None \<Rightarrow> True
      | Some se \<Rightarrow>
          (case se of
             JObj srv \<Rightarrow>
               (case map_of srv ''server_connections'' of
                  Some (JNum c) \<Rightarrow> c < 1
                | _ \<Rightarrow> False)
           | _ \<Rightarrow> False))"

section \<open>Monitor.Run (exporter.go)\<close>

text \<open>
  One tick. The two gauge families and the log are the state; a gauge is addressed by its
  key in the Go map and its label values. \<^verbatim>\<open>net.Dial\<close> is a parameter that gives an error
  or a connection, and a connection is what \<^verbatim>\<open>Read\<close> gives for a buffer size: the bytes
  and an optional error. The decoder is a parameter as in \<open>parseStats\<close>.

  After a failed \<^verbatim>\<open>Dial\<close> the source logs and goes on; \<^verbatim>\<open>conn\<close> is the nil interface
  and \<^verbatim>\<open>conn.Read\<close> panics. After a failed \<^verbatim>\<open>Read\<close> or a failed \<open>parseStats\<close> it logs and
  goes on too, with the bytes read so far and with the zero snapshot. A panic ends the
  process, so no state is returned with it. The snapshot's maps are Go maps, ranged
  over in no fixed order; here they are folded in list order.
\<close>

record Monitor =
  Config :: "(string \<times> Config) list"
  tcpHost :: string

record sink =
  twemproxyMetrics :: "string \<times> string list \<Rightarrow> rat option"
  serverMetrics :: "string \<times> string list \<Rightarrow> rat option"
  logged :: "string list list"

text \<open>A log line is kept as the list of the operands of \<^verbatim>\<open>log.Println\<close>.\<close>

definition log_Println :: "string list \<Rightarrow> sink \<Rightarrow> sink" where
  "log_Println operands w = w\<lparr>logged := logged w @ [operands]\<rparr>"

text \<open>Lines 205 to 211.\<close>

definition publish_server :: "string \<Rightarrow> string \<Rightarrow> ServerStats \<Rightarrow> sink \<Rightarrow> sink" where
  "publish_server hostname serviceName server w =
     (let labels = [hostname, serviceName, HostAlias server] in
      w\<lparr>serverMetrics := (serverMetrics w)
           ((''in_queue'', labels) \<mapsto> InQueue server,
            (''in_queue_bytes'', labels) \<mapsto> InQueueBytes server,
            (''err'', labels) \<mapsto> ServerErr server,
            (''eof'', labels) \<mapsto> ServerEOF server,
            (''timed_out'', labels) \<mapsto> ServerTimedout server,
            (''server_connection'', labels) \<mapsto> ServerConnections server,
            (''server_ejected_at'', labels) \<mapsto> ServerEjectedAt server)\<rparr>)"

text \<open>Lines 201 to 213.\<close>

definition publish :: "string \<Rightarrow> TwemproxyStats \<Rightarrow> sink \<Rightarrow> sink" where
  "publish hostname stats w =
     (let w = w\<lparr>twemproxyMetrics := (twemproxyMetrics w)
                  ((''total_connections'', [hostname]) \<mapsto> TotalConnections stats)\<rparr>;
          w = w\<lparr>twemproxyMetrics := (twemproxyMetrics w)
                  ((''current_connections'', [hostname]) \<mapsto> CurrentConnections stats)\<rparr>
      in fold (\<lambda>(serviceName, service) w.
                 fold (\<lambda>(host, server) w. publish_server hostname serviceName server w)
                   (svcServers service) w)
           (Services stats) w)"

text \<open>Lines 184 to 215.\<close>

definition Run ::
  "(string \<Rightarrow> string + (string \<times> json) list)
     \<Rightarrow> (string \<Rightarrow> string + (nat \<Rightarrow> string \<times> string option))
     \<Rightarrow> string \<Rightarrow> Monitor \<Rightarrow> sink \<Rightarrow> error + sink" where
  "Run unmarshal dial hostname m w =
     (case dial (tcpHost m) of
        Inl err \<Rightarrow> Inl NilPointerPanic
      | Inr conn \<Rightarrow>
          (case conn 8192 of (reply, read_err) \<Rightarrow>
            (let w = (case read_err of
                        None \<Rightarrow> w
                      | Some err \<Rightarrow> log_Println [''Error when read reply from tcp '', err] w)
             in case parseStats unmarshal (take 8192 reply) (Config m) of
                  Inl (UnmarshalError err) \<Rightarrow>
                    Inr (publish hostname zero_TwemproxyStats
                           (log_Println [''Failed to parse stats: '', err] w))
                | Inl panic \<Rightarrow> Inl panic
                | Inr stats \<Rightarrow> Inr (publish hostname stats w))))"

section \<open>A topology and a payload\<close>

text \<open>
  Three services: \<open>alpha\<close> with a plain and an aliased backend, of which the payload
  reports only the aliased one; \<open>beta\<close>, which the payload omits; \<open>gamma\<close> with a
  disconnected and a connected backend, next to an entry that no backend declares.
\<close>

definition example_server :: "rat \<Rightarrow> json" where
  "example_server connections =
     JObj [(''server_eof'', JNum 0), (''server_err'', JNum 0), (''server_timedout'', JNum 0),
           (''server_connections'', JNum connections), (''server_ejected_at'', JNum 0),
           (''requests'', JNum 7), (''request_bytes'', JNum 70), (''responses'', JNum 7),
           (''response_bytes'', JNum 35), (''in_queue'', JNum 0), (''in_queue_bytes'', JNum 0),
           (''out_queue'', JNum 0), (''out_queue_bytes'', JNum 0)]"

definition example_scalars :: "(string \<times> json) list" where
  "example_scalars =
     [(''client_eof'', JNum 1), (''client_err'', JNum 0),
      (''client_connections'', JNum 2), (''server_ejects'', JNum 0),
      (''forward_error'', JNum 0), (''fragments'', JNum 0)]"

definition example_alpha :: "(string \<times> json) list" where
  "example_alpha = example_scalars @ [(''cache2'', example_server 5)]"

definition example_gamma :: "(string \<times> json) list" where
  "example_gamma =
     example_scalars @
     [(''10.0.2.1'', example_server 0), (''10.0.2.2'', example_server 2),
      (''10.9.9.9'', example_server 4)]"

definition example_stats :: "(string \<times> json) list" where
  "example_stats =
     [(''service'', JStr ''nutcracker''), (''source'', JStr ''host1''),
      (''total_connections'', JNum 12), (''curr_connections'', JNum 3),
      (''alpha'', JObj example_alpha), (''gamma'', JObj example_gamma)]"

definition example_conf :: "string \<Rightarrow> Server list \<Rightarrow> Config" where
  "example_conf name servers =
     \<lparr>ConfigName = name, Hash = ''fnv1a_64'', HashTag = ''{}'', Distribution = ''ketama'',
      AutoEjectHosts = False, Timeout = 400, Protocol = [], Redis = True, Servers = servers\<rparr>"

definition example_alpha_conf :: Config where
  "example_alpha_conf =
     example_conf ''alpha''
       [\<lparr>IP = ''10.0.0.1'', Alias = []\<rparr>, \<lparr>IP = ''10.0.0.2'', Alias = ''cache2''\<rparr>]"

definition example_beta_conf :: Config where
  "example_beta_conf =
     example_conf ''beta''
       [\<lparr>IP = ''10.0.1.1'', Alias = []\<rparr>, \<lparr>IP = ''10.0.1.2'', Alias = []\<rparr>,
        \<lparr>IP = ''10.0.1.3'', Alias = []\<rparr>]"

definition example_gamma_conf :: Config where
  "example_gamma_conf =
     example_conf ''gamma''
       [\<lparr>IP = ''10.0.2.1'', Alias = []\<rparr>, \<lparr>IP = ''10.0.2.2'', Alias = []\<rparr>]"

definition example_config :: "(string \<times> Config) list" where
  "example_config =
     [(''alpha'', example_alpha_conf), (''beta'', example_beta_conf),
      (''gamma'', example_gamma_conf)]"

text \<open>What the translation returns for them.\<close>

definition example_cache2_stats :: ServerStats where
  "example_cache2_stats =
     \<lparr>Host = ''cache2'', HostAlias = ''10.0.0.2'',
      ServerEOF = 0, ServerErr = 0, ServerTimedout = 0,
      ServerConnections = 5, ServerEjectedAt = 0,
      Requests = 7, RequestBytes = 70, Responses = 7,
      ResponseBytes = 35, InQueue = 0, InQueueBytes = 0,
      OutQueue = 0, OutQueueBytes = 0\<rparr>"

definition example_alpha_stats :: ServiceStats where
  "example_alpha_stats =
     \<lparr>Name = ''alpha'', ClientEOF = 1, ClientErr = 0,
      ClientConnections = 2, ServerEjects = 0, ForwardError = 0,
      Fragments = 0, svcExpectedAvailable = 2, svcNotAvailable = 1,
      svcServers = [(''cache2'', example_cache2_stats)]\<rparr>"

definition example_gamma_stats :: ServiceStats where
  "example_gamma_stats =
     \<lparr>Name = ''gamma'', ClientEOF = 1, ClientErr = 0,
      ClientConnections = 2, ServerEjects = 0, ForwardError = 0,
      Fragments = 0, svcExpectedAvailable = 2, svcNotAvailable = 1,
      svcServers =
        [(''10.0.2.1'',
          \<lparr>Host = ''10.0.2.1'', HostAlias = ''10.0.2.1'',
           ServerEOF = 0, ServerErr = 0, ServerTimedout = 0,
           ServerConnections = 0, ServerEjectedAt = 0,
           Requests = 7, RequestBytes = 70, Responses = 7,
           ResponseBytes = 35, InQueue = 0, InQueueBytes = 0,
           OutQueue = 0, OutQueueBytes = 0\<rparr>),
         (''10.0.2.2'',
          \<lparr>Host = ''10.0.2.2'', HostAlias = ''10.0.2.2'',
           ServerEOF = 0, ServerErr = 0, ServerTimedout = 0,
           ServerConnections = 2, ServerEjectedAt = 0,
           Requests = 7, RequestBytes = 70, Responses = 7,
           ResponseBytes = 35, InQueue = 0, InQueueBytes = 0,
           OutQueue = 0, OutQueueBytes = 0\<rparr>)]\<rparr>"

definition example_result :: TwemproxyStats where
  "example_result =
     \<lparr>Service = ''nutcracker'', Source = ''host1'', TotalConnections = 12,
      CurrentConnections = 3, ExpectedAvailable = 4, NotAvailable = 2,
      Services = [(''alpha'', example_alpha_stats), (''gamma'', example_gamma_stats)]\<rparr>"

text \<open>
  The bytes of a poll and a decoder that reads a given tree from them, to stand for the
  library's decoder in the examples.
\<close>

definition example_content :: string where
  "example_content = ''{...}''"

definition decodes_to :: "(string \<times> json) list \<Rightarrow> string \<Rightarrow> string + (string \<times> json) list" where
  "decodes_to stats content = Inr stats"

text \<open>The same payload without the entry that no backend declares.\<close>

definition example_gamma_declared :: "(string \<times> json) list" where
  "example_gamma_declared =
     example_scalars @ [(''10.0.2.1'', example_server 0), (''10.0.2.2'', example_server 2)]"

definition example_stats_declared :: "(string \<times> json) list" where
  "example_stats_declared =
     [(''service'', JStr ''nutcracker''), (''source'', JStr ''host1''),
      (''total_connections'', JNum 12), (''curr_connections'', JNum 3),
      (''alpha'', JObj example_alpha), (''gamma'', JObj example_gamma_declared)]"

text \<open>The payload without its \<open>source\<close> field.\<close>

definition example_stats_no_source :: "(string \<times> json) list" where
  "example_stats_no_source =
     [(''service'', JStr ''nutcracker''),
      (''total_connections'', JNum 12), (''curr_connections'', JNum 3),
      (''alpha'', JObj example_alpha), (''gamma'', JObj example_gamma)]"

text \<open>The payload with an entry for \<open>cache2\<close> that has no \<open>out_queue_bytes\<close> field.\<close>

definition example_server_short :: "(string \<times> json) list" where
  "example_server_short =
     [(''server_eof'', JNum 0), (''server_err'', JNum 0), (''server_timedout'', JNum 0),
      (''server_connections'', JNum 5), (''server_ejected_at'', JNum 0),
      (''requests'', JNum 7), (''request_bytes'', JNum 70), (''responses'', JNum 7),
      (''response_bytes'', JNum 35), (''in_queue'', JNum 0), (''in_queue_bytes'', JNum 0),
      (''out_queue'', JNum 0)]"

definition example_alpha_short :: "(string \<times> json) list" where
  "example_alpha_short = example_scalars @ [(''cache2'', JObj example_server_short)]"

definition example_stats_short :: "(string \<times> json) list" where
  "example_stats_short =
     [(''service'', JStr ''nutcracker''), (''source'', JStr ''host1''),
      (''total_connections'', JNum 12), (''curr_connections'', JNum 3),
      (''alpha'', JObj example_alpha_short), (''gamma'', JObj example_gamma)]"

text \<open>A payload in which every declared service and backend reports, each connected.\<close>

definition example_alpha_full :: "(string \<times> json) list" where
  "example_alpha_full =
     example_scalars @ [(''10.0.0.1'', example_server 1), (''cache2'', example_server 5)]"

definition example_beta_full :: "(string \<times> json) list" where
  "example_beta_full =
     example_scalars @
     [(''10.0.1.1'', example_server 3), (''10.0.1.2'', example_server 1),
      (''10.0.1.3'', example_server 2)]"

definition example_gamma_full :: "(string \<times> json) list" where
  "example_gamma_full =
     example_scalars @ [(''10.0.2.1'', example_server 1), (''10.0.2.2'', example_server 2)]"

definition example_stats_full :: "(string \<times> json) list" where
  "example_stats_full =
     [(''service'', JStr ''nutcracker''), (''source'', JStr ''host1''),
      (''total_connections'', JNum 12), (''curr_connections'', JNum 3),
      (''alpha'', JObj example_alpha_full), (''beta'', JObj example_beta_full),
      (''gamma'', JObj example_gamma_full)]"

definition example_sink :: sink where
  "example_sink =
     \<lparr>twemproxyMetrics = [(''total_connections'', [''exporter1'']) \<mapsto> 12,
                          (''current_connections'', [''exporter1'']) \<mapsto> 3],
      serverMetrics = Map.empty, logged = []\<rparr>"

text \<open>
  A monitor, three outcomes of \<^verbatim>\<open>net.Dial\<close> (refused; connected, the read fails; connected,
  the read delivers the bytes) and a decoder that rejects what it is given.
\<close>

definition example_monitor :: Monitor where
  "example_monitor = \<lparr>Config = example_config, tcpHost = ''localhost:22222''\<rparr>"

definition dial_refused :: "string \<Rightarrow> string + (nat \<Rightarrow> string \<times> string option)" where
  "dial_refused host = Inl ''connection refused''"

definition dial_read_fails :: "string \<Rightarrow> string + (nat \<Rightarrow> string \<times> string option)" where
  "dial_read_fails host = Inr (\<lambda>size. ([], Some ''EOF''))"

definition dial_connected :: "string \<Rightarrow> string + (nat \<Rightarrow> string \<times> string option)" where
  "dial_connected host = Inr (\<lambda>size. (take size example_content, None))"

definition decoder_rejects :: "string \<Rightarrow> string + (string \<times> json) list" where
  "decoder_rejects content = Inl ''unexpected end of JSON input''"

section \<open>The error plumbing\<close>

lemma and_then_Inl [simp]: "and_then (Inl e) f = Inl e"
  by (simp add: and_then_def)

lemma and_then_Inr [simp]: "and_then (Inr x) f = f x"
  by (simp add: and_then_def)

lemma and_then_eq_Inr: "and_then m f = Inr y \<longleftrightarrow> (\<exists>x. m = Inr x \<and> f x = Inr y)"
  by (cases m) simp_all

lemma and_then_eq_Inl: "and_then m f = Inl e \<longleftrightarrow> m = Inl e \<or> (\<exists>x. m = Inr x \<and> f x = Inl e)"
  by (cases m) simp_all

lemma assert_float64_Inr: "assert_float64 v = Inr x \<longleftrightarrow> v = Some (JNum x)"
  by (cases v rule: assert_float64.cases) simp_all

lemma assert_string_Inr: "assert_string v = Inr x \<longleftrightarrow> v = Some (JStr x)"
  by (cases v rule: assert_string.cases) simp_all

lemma assert_map_Inr: "assert_map v = Inr x \<longleftrightarrow> v = Some (JObj x)"
  by (cases v rule: assert_map.cases) simp_all

lemma assert_float64_Inl: "assert_float64 v = Inl e \<Longrightarrow> e = TypeAssertionPanic"
  by (cases v rule: assert_float64.cases) simp_all

lemma assert_string_Inl: "assert_string v = Inl e \<Longrightarrow> e = TypeAssertionPanic"
  by (cases v rule: assert_string.cases) simp_all

lemma assert_map_Inl: "assert_map v = Inl e \<Longrightarrow> e = TypeAssertionPanic"
  by (cases v rule: assert_map.cases) simp_all

lemma new_ServerStats_Inr:
  assumes "new_ServerStats host hostAlias srv = Inr e"
  shows "Host e = host" and "HostAlias e = hostAlias"
    and "map_of srv ''server_connections'' = Some (JNum (ServerConnections e))"
    and "\<forall>f\<in>set server_fields. \<exists>x. map_of srv f = Some (JNum x)"
  using assms
  by (auto simp add: new_ServerStats_def and_then_eq_Inr assert_float64_Inr server_fields_def)

lemma new_ServerStats_Inl:
  "new_ServerStats host hostAlias srv = Inl e \<Longrightarrow> e = TypeAssertionPanic"
  by (auto simp add: new_ServerStats_def and_then_eq_Inl dest: assert_float64_Inl)

lemma new_ServerStats_total:
  assumes "\<forall>f\<in>set server_fields. \<exists>x. map_of srv f = Some (JNum x)"
  shows "\<exists>e. new_ServerStats host hostAlias srv = Inr e"
proof -
  from assms obtain a1 a2 a3 a4 a5 a6 a7 a8 a9 a10 a11 a12 a13 where
    "map_of srv ''server_eof'' = Some (JNum a1)"
    "map_of srv ''server_err'' = Some (JNum a2)"
    "map_of srv ''server_timedout'' = Some (JNum a3)"
    "map_of srv ''server_connections'' = Some (JNum a4)"
    "map_of srv ''server_ejected_at'' = Some (JNum a5)"
    "map_of srv ''requests'' = Some (JNum a6)"
    "map_of srv ''request_bytes'' = Some (JNum a7)"
    "map_of srv ''responses'' = Some (JNum a8)"
    "map_of srv ''response_bytes'' = Some (JNum a9)"
    "map_of srv ''in_queue'' = Some (JNum a10)"
    "map_of srv ''in_queue_bytes'' = Some (JNum a11)"
    "map_of srv ''out_queue'' = Some (JNum a12)"
    "map_of srv ''out_queue_bytes'' = Some (JNum a13)"
    unfolding server_fields_def by (simp only: list.set ball_simps) blast
  then show ?thesis
    by (simp add: new_ServerStats_def)
qed

lemma new_ServerStats_absent:
  assumes "f \<in> set server_fields" and "map_of srv f = None"
  shows "new_ServerStats host hostAlias srv = Inl TypeAssertionPanic"
proof (cases "new_ServerStats host hostAlias srv")
  case (Inl e)
  then show ?thesis using new_ServerStats_Inl by blast
next
  case (Inr e)
  from new_ServerStats_Inr(4) [OF Inr] assms show ?thesis by auto
qed

section \<open>Loops that may panic\<close>

lemma for_each_Inl:
  assumes "\<And>x s e. x \<in> set xs \<Longrightarrow> body x s = Inl e \<Longrightarrow> e = p"
  shows "for_each body xs s = Inl e \<Longrightarrow> e = p"
  using assms
proof (induction xs arbitrary: s)
  case Nil
  then show ?case by simp
next
  case (Cons x xs)
  then show ?case
    by (cases "body x s") (auto simp add: and_then_eq_Inl)
qed

lemma for_each_panics:
  assumes "x \<in> set xs" and "\<And>s. body x s = Inl p"
    and "\<And>y s e. y \<in> set xs \<Longrightarrow> body y s = Inl e \<Longrightarrow> e = p"
  shows "for_each body xs s = Inl p"
  using assms
proof (induction xs arbitrary: s)
  case Nil
  then show ?case by simp
next
  case (Cons y ys)
  show ?case
  proof (cases "body y s")
    case (Inl e)
    have "e = p" by (rule Cons.prems(3) [of y s e]) (simp_all add: Inl)
    with Inl show ?thesis by simp
  next
    case (Inr s')
    show ?thesis
    proof (cases "x = y")
      case True
      with Cons.prems(2) [of s] Inr show ?thesis by simp
    next
      case False
      with Cons.prems(1) have "x \<in> set ys" by simp
      then have "for_each body ys s' = Inl p"
      proof (rule Cons.IH)
        show "\<And>s. body x s = Inl p" by (rule Cons.prems(2))
        show "\<And>y s e. y \<in> set ys \<Longrightarrow> body y s = Inl e \<Longrightarrow> e = p"
          by (rule Cons.prems(3)) simp_all
      qed
      with Inr show ?thesis by simp
    qed
  qed
qed

lemma for_each_cong:
  assumes "\<And>x s. x \<in> set xs \<Longrightarrow> f x s = g x s"
  shows "for_each f xs s = for_each g xs s"
  using assms by (induction xs arbitrary: s) (auto simp add: and_then_def split: sum.splits)

lemma for_each_append:
  "for_each body (xs @ ys) s = and_then (for_each body xs s) (for_each body ys)"
  by (induction xs arbitrary: s) (simp_all add: and_then_def split: sum.splits)

section \<open>One backend\<close>

lemma server_body_absent:
  "map_of service (host_of val) = None \<Longrightarrow>
   server_body service val (twemp, serviceStats) =
     Inr (twemp\<lparr>NotAvailable := NotAvailable twemp + 1\<rparr>,
          serviceStats\<lparr>svcNotAvailable := svcNotAvailable serviceStats + 1\<rparr>)"
  by (simp add: server_body_def)

lemma server_body_present:
  assumes "map_of service (host_of val) = Some se"
    and "server_body service val (twemp, serviceStats) = Inr (twemp', serviceStats')"
  shows "\<exists>srv e. se = JObj srv \<and> new_ServerStats (host_of val) (IP val) srv = Inr e \<and>
           twemp' = twemp\<lparr>NotAvailable := NotAvailable twemp + (if ServerConnections e < 1 then 1 else 0)\<rparr> \<and>
           serviceStats' = serviceStats
             \<lparr>svcServers := AList.update (host_of val) e (svcServers serviceStats),
              svcNotAvailable := svcNotAvailable serviceStats + (if ServerConnections e < 1 then 1 else 0)\<rparr>"
  using assms
  by (auto simp add: server_body_def Let_def and_then_eq_Inr assert_map_Inr split: if_splits)

lemma server_body_Inl:
  "server_body service val st = Inl e \<Longrightarrow> e = TypeAssertionPanic"
  by (cases st)
     (auto simp add: server_body_def Let_def and_then_eq_Inl
           split: option.splits if_splits dest: assert_map_Inl new_ServerStats_Inl)

lemma server_body_step:
  assumes "server_body service val (twemp, serviceStats) = Inr (twemp', serviceStats')"
  shows "twemp' = twemp\<lparr>NotAvailable := NotAvailable twemp + (if not_available service val then 1 else 0)\<rparr>"
    and "\<exists>srvs. serviceStats' = serviceStats
           \<lparr>svcNotAvailable := svcNotAvailable serviceStats + (if not_available service val then 1 else 0),
            svcServers := srvs\<rparr>"
proof -
  show "twemp' = twemp\<lparr>NotAvailable := NotAvailable twemp + (if not_available service val then 1 else 0)\<rparr>"
  proof (cases "map_of service (host_of val)")
    case None
    with assms show ?thesis by (simp add: server_body_absent not_available_def)
  next
    case (Some se)
    from server_body_present [OF Some assms] obtain srv e where
      "se = JObj srv" "new_ServerStats (host_of val) (IP val) srv = Inr e"
      "twemp' = twemp\<lparr>NotAvailable := NotAvailable twemp + (if ServerConnections e < 1 then 1 else 0)\<rparr>"
      by blast
    with Some new_ServerStats_Inr(3) [of "host_of val" "IP val" srv e] show ?thesis
      by (simp add: not_available_def)
  qed
  show "\<exists>srvs. serviceStats' = serviceStats
           \<lparr>svcNotAvailable := svcNotAvailable serviceStats + (if not_available service val then 1 else 0),
            svcServers := srvs\<rparr>"
  proof (cases "map_of service (host_of val)")
    case None
    with assms have "serviceStats' = serviceStats
           \<lparr>svcNotAvailable := svcNotAvailable serviceStats + (if not_available service val then 1 else 0),
            svcServers := svcServers serviceStats\<rparr>"
      by (auto simp add: server_body_absent not_available_def)
    then show ?thesis ..
  next
    case (Some se)
    from server_body_present [OF Some assms] obtain srv e where
      "se = JObj srv" "new_ServerStats (host_of val) (IP val) srv = Inr e"
      "serviceStats' = serviceStats
             \<lparr>svcServers := AList.update (host_of val) e (svcServers serviceStats),
              svcNotAvailable := svcNotAvailable serviceStats + (if ServerConnections e < 1 then 1 else 0)\<rparr>"
      by blast
    with Some new_ServerStats_Inr(3) [of "host_of val" "IP val" srv e]
    have "serviceStats' = serviceStats
           \<lparr>svcNotAvailable := svcNotAvailable serviceStats + (if not_available service val then 1 else 0),
            svcServers := AList.update (host_of val) e (svcServers serviceStats)\<rparr>"
      by (simp add: not_available_def)
    then show ?thesis ..
  qed
qed

section \<open>The loop over the backends of a service\<close>

lemma server_loop_counts:
  assumes "for_each (server_body service) servers (twemp, serviceStats) = Inr (twemp', serviceStats')"
  shows "twemp' = twemp
           \<lparr>NotAvailable := NotAvailable twemp + int (length (filter (not_available service) servers))\<rparr>
         \<and> (\<exists>srvs. serviceStats' = serviceStats
           \<lparr>svcNotAvailable :=
              svcNotAvailable serviceStats + int (length (filter (not_available service) servers)),
            svcServers := srvs\<rparr>)"
  using assms
proof (induction servers arbitrary: twemp serviceStats)
  case Nil
  have "serviceStats = serviceStats
          \<lparr>svcNotAvailable :=
             svcNotAvailable serviceStats + int (length (filter (not_available service) [])),
           svcServers := svcServers serviceStats\<rparr>"
    by simp
  then have "\<exists>srvs. serviceStats = serviceStats
          \<lparr>svcNotAvailable :=
             svcNotAvailable serviceStats + int (length (filter (not_available service) [])),
           svcServers := srvs\<rparr>" ..
  with Nil show ?case by simp
next
  case (Cons val servers)
  from Cons.prems obtain tw1 ss1 where
    step: "server_body service val (twemp, serviceStats) = Inr (tw1, ss1)" and
    rest: "for_each (server_body service) servers (tw1, ss1) = Inr (twemp', serviceStats')"
    by (auto simp add: and_then_eq_Inr)
  from server_body_step [OF step] obtain srvs1 where
    s1: "tw1 = twemp\<lparr>NotAvailable := NotAvailable twemp + (if not_available service val then 1 else 0)\<rparr>" and
    s2: "ss1 = serviceStats
           \<lparr>svcNotAvailable := svcNotAvailable serviceStats + (if not_available service val then 1 else 0),
            svcServers := srvs1\<rparr>"
    by blast
  from Cons.IH [OF rest] obtain srvs where
    r1: "twemp' = tw1
           \<lparr>NotAvailable := NotAvailable tw1 + int (length (filter (not_available service) servers))\<rparr>" and
    r2: "serviceStats' = ss1
           \<lparr>svcNotAvailable :=
              svcNotAvailable ss1 + int (length (filter (not_available service) servers)),
            svcServers := srvs\<rparr>"
    by blast
  have "twemp' = twemp
           \<lparr>NotAvailable := NotAvailable twemp + int (length (filter (not_available service) (val # servers)))\<rparr>"
    unfolding r1 s1 by simp
  moreover have "serviceStats' = serviceStats
           \<lparr>svcNotAvailable :=
              svcNotAvailable serviceStats + int (length (filter (not_available service) (val # servers))),
            svcServers := srvs\<rparr>"
    unfolding r2 s2 by simp
  ultimately show ?case by blast
qed

lemma server_loop_entries:
  assumes "for_each (server_body service) servers (twemp, serviceStats) = Inr (twemp', serviceStats')"
    and "map_of (svcServers serviceStats') h = Some e"
  shows "map_of (svcServers serviceStats) h = Some e \<or>
         (\<exists>val\<in>set servers. host_of val = h \<and>
            (\<exists>srv. map_of service h = Some (JObj srv) \<and> new_ServerStats h (IP val) srv = Inr e))"
  using assms
proof (induction servers arbitrary: twemp serviceStats)
  case Nil
  then show ?case by simp
next
  case (Cons val servers)
  from Cons.prems(1) obtain tw1 ss1 where
    step: "server_body service val (twemp, serviceStats) = Inr (tw1, ss1)" and
    rest: "for_each (server_body service) servers (tw1, ss1) = Inr (twemp', serviceStats')"
    by (auto simp add: and_then_eq_Inr)
  from Cons.IH [OF rest Cons.prems(2)]
  consider (old) "map_of (svcServers ss1) h = Some e"
    | (new) "\<exists>val\<in>set servers. host_of val = h \<and>
            (\<exists>srv. map_of service h = Some (JObj srv) \<and> new_ServerStats h (IP val) srv = Inr e)"
    by blast
  then show ?case
  proof cases
    case old
    show ?thesis
    proof (cases "map_of service (host_of val)")
      case None
      with step old show ?thesis by (auto simp add: server_body_absent)
    next
      case (Some se)
      from server_body_present [OF Some step] obtain srv e' where
        "se = JObj srv" "new_ServerStats (host_of val) (IP val) srv = Inr e'"
        "svcServers ss1 = AList.update (host_of val) e' (svcServers serviceStats)"
        by auto
      with old Some show ?thesis
        by (cases "h = host_of val") (auto simp add: update_conv')
    qed
  next
    case new
    then show ?thesis by auto
  qed
qed

lemma server_loop_keys:
  assumes "for_each (server_body service) servers (twemp, serviceStats) = Inr (twemp', serviceStats')"
  shows "fst ` set (svcServers serviceStats') =
         fst ` set (svcServers serviceStats) \<union>
         {host_of val |val. val \<in> set servers \<and> map_of service (host_of val) \<noteq> None}"
  using assms
proof (induction servers arbitrary: twemp serviceStats)
  case Nil
  then show ?case by simp
next
  case (Cons val servers)
  from Cons.prems(1) obtain tw1 ss1 where
    step: "server_body service val (twemp, serviceStats) = Inr (tw1, ss1)" and
    rest: "for_each (server_body service) servers (tw1, ss1) = Inr (twemp', serviceStats')"
    by (auto simp add: and_then_eq_Inr)
  have "fst ` set (svcServers ss1) =
        fst ` set (svcServers serviceStats) \<union>
        (if map_of service (host_of val) = None then {} else {host_of val})"
  proof (cases "map_of service (host_of val)")
    case None
    with step show ?thesis by (auto simp add: server_body_absent)
  next
    case (Some se)
    from server_body_present [OF Some step] obtain e' where
      "svcServers ss1 = AList.update (host_of val) e' (svcServers serviceStats)"
      by auto
    with Some show ?thesis by (simp add: dom_update)
  qed
  with Cons.IH [OF rest] show ?case by auto
qed

lemma server_loop_distinct:
  assumes "for_each (server_body service) servers (twemp, serviceStats) = Inr (twemp', serviceStats')"
    and "distinct (map fst (svcServers serviceStats))"
  shows "distinct (map fst (svcServers serviceStats'))"
  using assms
proof (induction servers arbitrary: twemp serviceStats)
  case Nil
  then show ?case by simp
next
  case (Cons val servers)
  from Cons.prems(1) obtain tw1 ss1 where
    step: "server_body service val (twemp, serviceStats) = Inr (tw1, ss1)" and
    rest: "for_each (server_body service) servers (tw1, ss1) = Inr (twemp', serviceStats')"
    by (auto simp add: and_then_eq_Inr)
  have "distinct (map fst (svcServers ss1))"
  proof (cases "map_of service (host_of val)")
    case None
    with step Cons.prems(2) show ?thesis by (auto simp add: server_body_absent)
  next
    case (Some se)
    from server_body_present [OF Some step] obtain e' where
      "svcServers ss1 = AList.update (host_of val) e' (svcServers serviceStats)"
      by auto
    with Cons.prems(2) show ?thesis by (simp add: distinct_update)
  qed
  with Cons.IH [OF rest] show ?case by simp
qed

section \<open>One service\<close>

lemma service_body_absent:
  "map_of stats key = None \<Longrightarrow> service_body stats (key, conf) twemp = Inr twemp"
  by (simp add: service_body_def)

lemma service_body_Inl:
  "service_body stats entry twemp = Inl e \<Longrightarrow> e = TypeAssertionPanic"
proof (cases entry)
  case (Pair key conf)
  assume a: "service_body stats entry twemp = Inl e"
  have loop: "\<And>service st. for_each (server_body service) (Servers conf) st = Inl e \<Longrightarrow> e = TypeAssertionPanic"
    by (rule for_each_Inl [where body = "server_body _"]) (rule server_body_Inl)
  from a show ?thesis
    unfolding Pair service_body_def Let_def prod.case
    by (auto simp add: and_then_eq_Inl split: option.splits prod.splits
             dest: assert_map_Inl assert_float64_Inl loop)
qed

lemma service_body_present:
  assumes "map_of stats key = Some s"
    and "service_body stats (key, conf) twemp = Inr twemp'"
  shows "\<exists>service serviceStats.
           s = JObj service \<and>
           (\<forall>f\<in>set service_fields. \<exists>x. map_of service f = Some (JNum x)) \<and>
           twemp' = twemp
             \<lparr>ExpectedAvailable := ExpectedAvailable twemp + int (length (Servers conf)),
              NotAvailable := NotAvailable twemp +
                int (length (filter (not_available service) (Servers conf))),
              Services := AList.update key serviceStats (Services twemp)\<rparr> \<and>
           Name serviceStats = key \<and>
           svcExpectedAvailable serviceStats = int (length (Servers conf)) \<and>
           svcNotAvailable serviceStats =
             int (length (filter (not_available service) (Servers conf))) \<and>
           distinct (map fst (svcServers serviceStats)) \<and>
           fst ` set (svcServers serviceStats) =
             {host_of val |val. val \<in> set (Servers conf) \<and> map_of service (host_of val) \<noteq> None} \<and>
           (\<forall>h e. map_of (svcServers serviceStats) h = Some e \<longrightarrow>
              (\<exists>val\<in>set (Servers conf). host_of val = h \<and>
                 (\<exists>srv. map_of service h = Some (JObj srv) \<and>
                    new_ServerStats h (IP val) srv = Inr e)))"
proof -
  define ss0 :: ServiceStats where
    "ss0 = \<lparr>Name = key, ClientEOF = 0, ClientErr = 0, ClientConnections = 0,
            ServerEjects = 0, ForwardError = 0, Fragments = 0,
            svcExpectedAvailable = int (length (Servers conf)),
            svcNotAvailable = 0, svcServers = []\<rparr>"
  define tw0 where
    "tw0 = twemp\<lparr>ExpectedAvailable := ExpectedAvailable twemp + int (length (Servers conf))\<rparr>"
  from assms obtain service a1 a2 a3 a4 a5 a6 tw1 serviceStats where
    s: "s = JObj service" and
    f: "map_of service ''client_eof'' = Some (JNum a1)"
       "map_of service ''client_err'' = Some (JNum a2)"
       "map_of service ''client_connections'' = Some (JNum a3)"
       "map_of service ''server_ejects'' = Some (JNum a4)"
       "map_of service ''forward_error'' = Some (JNum a5)"
       "map_of service ''fragments'' = Some (JNum a6)" and
    loop: "for_each (server_body service) (Servers conf)
             (tw0, ss0\<lparr>ClientEOF := a1, ClientErr := a2, ClientConnections := a3,
                       ServerEjects := a4, ForwardError := a5, Fragments := a6\<rparr>)
           = Inr (tw1, serviceStats)" and
    res: "twemp' = tw1\<lparr>Services := AList.update key serviceStats (Services tw1)\<rparr>"
    unfolding service_body_def Let_def prod.case ss0_def tw0_def
    by (auto simp add: and_then_eq_Inr assert_map_Inr assert_float64_Inr)
  let ?ss1 = "ss0\<lparr>ClientEOF := a1, ClientErr := a2, ClientConnections := a3,
                   ServerEjects := a4, ForwardError := a5, Fragments := a6\<rparr>"
  let ?n = "int (length (filter (not_available service) (Servers conf)))"
  from server_loop_counts [OF loop] obtain srvs where
    c1: "tw1 = tw0\<lparr>NotAvailable := NotAvailable tw0 + ?n\<rparr>" and
    c2: "serviceStats = ?ss1\<lparr>svcNotAvailable := svcNotAvailable ?ss1 + ?n, svcServers := srvs\<rparr>"
    by blast
  have "\<forall>f\<in>set service_fields. \<exists>x. map_of service f = Some (JNum x)"
    using f by (simp add: service_fields_def)
  moreover have "twemp' = twemp
             \<lparr>ExpectedAvailable := ExpectedAvailable twemp + int (length (Servers conf)),
              NotAvailable := NotAvailable twemp + ?n,
              Services := AList.update key serviceStats (Services twemp)\<rparr>"
    unfolding res c1 tw0_def by simp
  moreover have "Name serviceStats = key"
    unfolding c2 ss0_def by simp
  moreover have "svcExpectedAvailable serviceStats = int (length (Servers conf))"
    unfolding c2 ss0_def by simp
  moreover have "svcNotAvailable serviceStats = ?n"
    unfolding c2 ss0_def by simp
  moreover have "distinct (map fst (svcServers serviceStats))"
    by (rule server_loop_distinct [OF loop]) (simp add: ss0_def)
  moreover have "fst ` set (svcServers serviceStats) =
             {host_of val |val. val \<in> set (Servers conf) \<and> map_of service (host_of val) \<noteq> None}"
    using server_loop_keys [OF loop] by (simp add: ss0_def)
  moreover have "\<forall>h e. map_of (svcServers serviceStats) h = Some e \<longrightarrow>
              (\<exists>val\<in>set (Servers conf). host_of val = h \<and>
                 (\<exists>srv. map_of service h = Some (JObj srv) \<and>
                    new_ServerStats h (IP val) srv = Inr e))"
    using server_loop_entries [OF loop] by (simp add: ss0_def)
  ultimately show ?thesis using s by blast
qed

section \<open>The loop over the topology\<close>

lemma sum_list_update_new:
  fixes f :: "'k \<times> 'v \<Rightarrow> int"
  shows "k \<notin> fst ` set al \<Longrightarrow> sum_list (map f (AList.update k v al)) = sum_list (map f al) + f (k, v)"
  by (induction al) auto

lemma service_body_cases:
  assumes "service_body stats (key, conf) twemp = Inr twemp'"
  obtains (skipped) "map_of stats key = None" "twemp' = twemp"
  | (emitted) service serviceStats where
      "map_of stats key = Some (JObj service)"
      "twemp' = twemp
         \<lparr>ExpectedAvailable := ExpectedAvailable twemp + int (length (Servers conf)),
          NotAvailable := NotAvailable twemp +
            int (length (filter (not_available service) (Servers conf))),
          Services := AList.update key serviceStats (Services twemp)\<rparr>"
      "svcExpectedAvailable serviceStats = int (length (Servers conf))"
      "svcNotAvailable serviceStats =
         int (length (filter (not_available service) (Servers conf)))"
proof (cases "map_of stats key")
  case None
  with assms have "twemp' = twemp" by (simp add: service_body_absent)
  with None show ?thesis by (rule skipped)
next
  case (Some s)
  from service_body_present [OF Some assms] Some show ?thesis
    by (elim exE conjE) (rule emitted, simp_all)
qed

lemma service_loop_counts:
  assumes "for_each (service_body stats) config twemp = Inr twemp'"
  shows "ExpectedAvailable twemp' = ExpectedAvailable twemp +
           sum_list (map (\<lambda>(key, conf).
             if map_of stats key = None then 0 else int (length (Servers conf))) config)"
    and "NotAvailable twemp' = NotAvailable twemp +
           sum_list (map (\<lambda>(key, conf).
             case map_of stats key of
               Some (JObj service) \<Rightarrow> int (length (filter (not_available service) (Servers conf)))
             | _ \<Rightarrow> 0) config)"
    and "Service twemp' = Service twemp" and "Source twemp' = Source twemp"
    and "TotalConnections twemp' = TotalConnections twemp"
    and "CurrentConnections twemp' = CurrentConnections twemp"
  using assms
proof (induction config arbitrary: twemp)
  case Nil
  {
    case 1 then show ?case by simp
  next
    case 2 then show ?case by simp
  next
    case 3 then show ?case by simp
  next
    case 4 then show ?case by simp
  next
    case 5 then show ?case by simp
  next
    case 6 then show ?case by simp
  }
next
  case (Cons entry config)
  obtain key conf where entry: "entry = (key, conf)" by (cases entry)
  {
    fix twemp
    assume "for_each (service_body stats) (entry # config) twemp = Inr twemp'"
    then obtain tw1 where
      step: "service_body stats (key, conf) twemp = Inr tw1" and
      rest: "for_each (service_body stats) config tw1 = Inr twemp'"
      by (auto simp add: and_then_eq_Inr entry)
    note ih = Cons.IH [OF rest]
    from step have
      "ExpectedAvailable tw1 = ExpectedAvailable twemp +
         (if map_of stats key = None then 0 else int (length (Servers conf)))
       \<and> NotAvailable tw1 = NotAvailable twemp +
         (case map_of stats key of
            Some (JObj service) \<Rightarrow> int (length (filter (not_available service) (Servers conf)))
          | _ \<Rightarrow> 0)
       \<and> Service tw1 = Service twemp \<and> Source tw1 = Source twemp
       \<and> TotalConnections tw1 = TotalConnections twemp
       \<and> CurrentConnections tw1 = CurrentConnections twemp"
      by (cases rule: service_body_cases) simp_all
    with ih have
      "ExpectedAvailable twemp' = ExpectedAvailable twemp +
           sum_list (map (\<lambda>(key, conf).
             if map_of stats key = None then 0 else int (length (Servers conf))) (entry # config))"
      "NotAvailable twemp' = NotAvailable twemp +
           sum_list (map (\<lambda>(key, conf).
             case map_of stats key of
               Some (JObj service) \<Rightarrow> int (length (filter (not_available service) (Servers conf)))
             | _ \<Rightarrow> 0) (entry # config))"
      "Service twemp' = Service twemp" "Source twemp' = Source twemp"
      "TotalConnections twemp' = TotalConnections twemp"
      "CurrentConnections twemp' = CurrentConnections twemp"
      by (simp_all add: entry)
  } note all = this
  {
    case 1 then show ?case by (rule all(1))
  next
    case 2 then show ?case by (rule all(2))
  next
    case 3 then show ?case by (rule all(3))
  next
    case 4 then show ?case by (rule all(4))
  next
    case 5 then show ?case by (rule all(5))
  next
    case 6 then show ?case by (rule all(6))
  }
qed

lemma service_body_Services:
  assumes "service_body stats (key, conf) twemp = Inr twemp'"
  shows "(map_of stats key = None \<and> Services twemp' = Services twemp) \<or>
         (map_of stats key \<noteq> None \<and>
          (\<exists>serviceStats. Services twemp' = AList.update key serviceStats (Services twemp)))"
  using assms by (cases rule: service_body_cases) auto

lemma service_loop_services:
  assumes "for_each (service_body stats) config twemp = Inr twemp'"
    and "map_of (Services twemp') k = Some serviceStats"
  shows "map_of (Services twemp) k = Some serviceStats \<or>
         (\<exists>conf t0 t1. (k, conf) \<in> set config \<and> map_of stats k \<noteq> None \<and>
            service_body stats (k, conf) t0 = Inr t1 \<and>
            Services t1 = AList.update k serviceStats (Services t0))"
  using assms
proof (induction config arbitrary: twemp)
  case Nil
  then show ?case by simp
next
  case (Cons entry config)
  obtain key conf where entry: "entry = (key, conf)" by (cases entry)
  from Cons.prems(1) obtain tw1 where
    step: "service_body stats (key, conf) twemp = Inr tw1" and
    rest: "for_each (service_body stats) config tw1 = Inr twemp'"
    by (auto simp add: and_then_eq_Inr entry)
  from Cons.IH [OF rest Cons.prems(2)]
  consider (old) "map_of (Services tw1) k = Some serviceStats"
    | (new) "\<exists>conf t0 t1. (k, conf) \<in> set config \<and> map_of stats k \<noteq> None \<and>
            service_body stats (k, conf) t0 = Inr t1 \<and>
            Services t1 = AList.update k serviceStats (Services t0)"
    by blast
  then show ?case
  proof cases
    case old
    from service_body_Services [OF step] show ?thesis
    proof (elim disjE conjE exE)
      assume "Services tw1 = Services twemp"
      with old show ?thesis by simp
    next
      fix ss1
      assume present: "map_of stats key \<noteq> None"
        and upd: "Services tw1 = AList.update key ss1 (Services twemp)"
      show ?thesis
      proof (cases "k = key")
        case True
        with old upd have "ss1 = serviceStats" by (simp add: update_conv')
        with upd step present True entry show ?thesis by auto
      next
        case False
        with old upd show ?thesis by (simp add: update_conv')
      qed
    qed
  next
    case new
    then show ?thesis by auto
  qed
qed

lemma service_loop_keys:
  assumes "for_each (service_body stats) config twemp = Inr twemp'"
  shows "fst ` set (Services twemp') =
         fst ` set (Services twemp) \<union> {key \<in> fst ` set config. map_of stats key \<noteq> None}"
  using assms
proof (induction config arbitrary: twemp)
  case Nil
  then show ?case by simp
next
  case (Cons entry config)
  obtain key conf where entry: "entry = (key, conf)" by (cases entry)
  from Cons.prems(1) obtain tw1 where
    step: "service_body stats (key, conf) twemp = Inr tw1" and
    rest: "for_each (service_body stats) config tw1 = Inr twemp'"
    by (auto simp add: and_then_eq_Inr entry)
  have "fst ` set (Services tw1) =
        fst ` set (Services twemp) \<union> (if map_of stats key = None then {} else {key})"
    using service_body_Services [OF step]
  proof (elim disjE conjE exE)
    assume "map_of stats key = None" "Services tw1 = Services twemp"
    then show ?thesis by simp
  next
    fix ss1
    assume "map_of stats key \<noteq> None" "Services tw1 = AList.update key ss1 (Services twemp)"
    then show ?thesis by (auto simp add: dom_update)
  qed
  with Cons.IH [OF rest] show ?case by (auto simp add: entry)
qed

lemma service_loop_distinct:
  assumes "for_each (service_body stats) config twemp = Inr twemp'"
    and "distinct (map fst (Services twemp))"
  shows "distinct (map fst (Services twemp'))"
  using assms
proof (induction config arbitrary: twemp)
  case Nil
  then show ?case by simp
next
  case (Cons entry config)
  obtain key conf where entry: "entry = (key, conf)" by (cases entry)
  from Cons.prems(1) obtain tw1 where
    step: "service_body stats (key, conf) twemp = Inr tw1" and
    rest: "for_each (service_body stats) config tw1 = Inr twemp'"
    by (auto simp add: and_then_eq_Inr entry)
  from service_body_Services [OF step] Cons.prems(2)
  have "distinct (map fst (Services tw1))"
    by (auto simp add: distinct_update)
  with Cons.IH [OF rest] show ?case by simp
qed

lemma service_loop_sums:
  assumes "for_each (service_body stats) config twemp = Inr twemp'"
    and "distinct (map fst config)"
    and "fst ` set config \<inter> fst ` set (Services twemp) = {}"
    and "sum_list (map (\<lambda>(key, serviceStats). svcNotAvailable serviceStats) (Services twemp))
           = NotAvailable twemp"
    and "sum_list (map (\<lambda>(key, serviceStats). svcExpectedAvailable serviceStats) (Services twemp))
           = ExpectedAvailable twemp"
  shows "sum_list (map (\<lambda>(key, serviceStats). svcNotAvailable serviceStats) (Services twemp'))
           = NotAvailable twemp' \<and>
         sum_list (map (\<lambda>(key, serviceStats). svcExpectedAvailable serviceStats) (Services twemp'))
           = ExpectedAvailable twemp'"
  using assms
proof (induction config arbitrary: twemp)
  case Nil
  then show ?case by simp
next
  case (Cons entry config)
  obtain key conf where entry: "entry = (key, conf)" by (cases entry)
  from Cons.prems(1) obtain tw1 where
    step: "service_body stats (key, conf) twemp = Inr tw1" and
    rest: "for_each (service_body stats) config tw1 = Inr twemp'"
    by (auto simp add: and_then_eq_Inr entry)
  from Cons.prems(2) have d: "distinct (map fst config)" and fresh: "key \<notin> fst ` set config"
    by (simp_all add: entry)
  from Cons.prems(3) have new: "key \<notin> fst ` set (Services twemp)"
    and disj: "fst ` set config \<inter> fst ` set (Services twemp) = {}"
    by (auto simp add: entry)
  from step have
    "fst ` set config \<inter> fst ` set (Services tw1) = {} \<and>
     sum_list (map (\<lambda>(key, serviceStats). svcNotAvailable serviceStats) (Services tw1))
       = NotAvailable tw1 \<and>
     sum_list (map (\<lambda>(key, serviceStats). svcExpectedAvailable serviceStats) (Services tw1))
       = ExpectedAvailable tw1"
  proof (cases rule: service_body_cases)
    case skipped
    with disj Cons.prems(4,5) show ?thesis by simp
  next
    case (emitted service serviceStats)
    have "fst ` set config \<inter> fst ` set (Services tw1) = {}"
      using disj fresh by (auto simp add: emitted(2) dom_update)
    moreover have "sum_list (map (\<lambda>(key, serviceStats). svcNotAvailable serviceStats) (Services tw1))
       = NotAvailable tw1"
      using new Cons.prems(4) by (simp add: emitted(2,4) sum_list_update_new)
    moreover have "sum_list (map (\<lambda>(key, serviceStats). svcExpectedAvailable serviceStats) (Services tw1))
       = ExpectedAvailable tw1"
      using new Cons.prems(5) by (simp add: emitted(2,3) sum_list_update_new)
    ultimately show ?thesis by simp
  qed
  then show ?case
    using Cons.IH [OF rest d] by simp
qed

section \<open>The whole translation\<close>

lemma parse_decoded_Inr:
  assumes "parse_decoded stats config = Inr twemp"
  obtains service source total_connections curr_connections where
    "map_of stats ''service'' = Some (JStr service)"
    "map_of stats ''source'' = Some (JStr source)"
    "map_of stats ''total_connections'' = Some (JNum total_connections)"
    "map_of stats ''curr_connections'' = Some (JNum curr_connections)"
    "for_each (service_body stats) config
       \<lparr>Service = service, Source = source,
        TotalConnections = total_connections,
        CurrentConnections = curr_connections,
        ExpectedAvailable = 0, NotAvailable = 0, Services = []\<rparr> = Inr twemp"
  using assms
  by (auto simp add: parse_decoded_def and_then_eq_Inr assert_string_Inr assert_float64_Inr)

lemma parse_decoded_Inl:
  assumes "parse_decoded stats config = Inl e"
  shows "e = TypeAssertionPanic"
proof -
  have loop: "\<And>s. for_each (service_body stats) config s = Inl e \<Longrightarrow> e = TypeAssertionPanic"
    by (rule for_each_Inl [where body = "service_body stats"]) (rule service_body_Inl)
  from assms show ?thesis
    by (auto simp add: parse_decoded_def and_then_eq_Inl
             dest: assert_string_Inl assert_float64_Inl loop)
qed

lemma parseStats_Inr:
  assumes "parseStats unmarshal statsContent config = Inr twemp"
  obtains stats where "unmarshal statsContent = Inr stats"
    and "parse_decoded stats config = Inr twemp"
  using assms by (auto simp add: parseStats_def split: sum.splits)

lemma parse_decoded_counts:
  assumes "parse_decoded stats config = Inr twemp"
  shows "ExpectedAvailable twemp =
           sum_list (map (\<lambda>(key, conf).
             if map_of stats key = None then 0 else int (length (Servers conf))) config)"
    and "NotAvailable twemp =
           sum_list (map (\<lambda>(key, conf).
             case map_of stats key of
               Some (JObj service) \<Rightarrow> int (length (filter (not_available service) (Servers conf)))
             | _ \<Rightarrow> 0) config)"
proof -
  from assms obtain service source total_connections curr_connections where
    loop: "for_each (service_body stats) config
       \<lparr>Service = service, Source = source,
        TotalConnections = total_connections,
        CurrentConnections = curr_connections,
        ExpectedAvailable = 0, NotAvailable = 0, Services = []\<rparr> = Inr twemp"
    by (rule parse_decoded_Inr)
  from service_loop_counts(1) [OF loop] show "ExpectedAvailable twemp =
           sum_list (map (\<lambda>(key, conf).
             if map_of stats key = None then 0 else int (length (Servers conf))) config)"
    by simp
  from service_loop_counts(2) [OF loop] show "NotAvailable twemp =
           sum_list (map (\<lambda>(key, conf).
             case map_of stats key of
               Some (JObj service) \<Rightarrow> int (length (filter (not_available service) (Servers conf)))
             | _ \<Rightarrow> 0) config)"
    by simp
qed

lemma parse_decoded_keys:
  assumes "parse_decoded stats config = Inr twemp"
  shows "fst ` set (Services twemp) = {key \<in> fst ` set config. map_of stats key \<noteq> None}"
    and "distinct (map fst (Services twemp))"
proof -
  from assms obtain service source total_connections curr_connections where
    loop: "for_each (service_body stats) config
       \<lparr>Service = service, Source = source,
        TotalConnections = total_connections,
        CurrentConnections = curr_connections,
        ExpectedAvailable = 0, NotAvailable = 0, Services = []\<rparr> = Inr twemp"
    by (rule parse_decoded_Inr)
  from service_loop_keys [OF loop]
  show "fst ` set (Services twemp) = {key \<in> fst ` set config. map_of stats key \<noteq> None}"
    by simp
  show "distinct (map fst (Services twemp))"
    by (rule service_loop_distinct [OF loop]) simp
qed

lemma service_body_emitted:
  assumes "map_of stats key = Some s"
    and "service_body stats (key, conf) twemp = Inr twemp'"
  obtains service serviceStats where
    "s = JObj service"
    "\<forall>f\<in>set service_fields. \<exists>x. map_of service f = Some (JNum x)"
    "twemp' = twemp
       \<lparr>ExpectedAvailable := ExpectedAvailable twemp + int (length (Servers conf)),
        NotAvailable := NotAvailable twemp +
          int (length (filter (not_available service) (Servers conf))),
        Services := AList.update key serviceStats (Services twemp)\<rparr>"
    "Name serviceStats = key"
    "svcExpectedAvailable serviceStats = int (length (Servers conf))"
    "svcNotAvailable serviceStats =
       int (length (filter (not_available service) (Servers conf)))"
    "distinct (map fst (svcServers serviceStats))"
    "fst ` set (svcServers serviceStats) =
       {host_of val |val. val \<in> set (Servers conf) \<and> map_of service (host_of val) \<noteq> None}"
    "\<forall>h e. map_of (svcServers serviceStats) h = Some e \<longrightarrow>
       (\<exists>val\<in>set (Servers conf). host_of val = h \<and>
          (\<exists>srv. map_of service h = Some (JObj srv) \<and>
             new_ServerStats h (IP val) srv = Inr e))"
  using service_body_present [OF assms] by (elim exE conjE) (rule that)

lemma parse_decoded_service:
  assumes "parse_decoded stats config = Inr twemp"
    and "map_of (Services twemp) key = Some serviceStats"
  obtains conf service where
    "(key, conf) \<in> set config"
    "map_of stats key = Some (JObj service)"
    "\<forall>f\<in>set service_fields. \<exists>x. map_of service f = Some (JNum x)"
    "Name serviceStats = key"
    "svcExpectedAvailable serviceStats = int (length (Servers conf))"
    "svcNotAvailable serviceStats =
       int (length (filter (not_available service) (Servers conf)))"
    "distinct (map fst (svcServers serviceStats))"
    "fst ` set (svcServers serviceStats) =
       {host_of val |val. val \<in> set (Servers conf) \<and> map_of service (host_of val) \<noteq> None}"
    "\<forall>h e. map_of (svcServers serviceStats) h = Some e \<longrightarrow>
       (\<exists>val\<in>set (Servers conf). host_of val = h \<and>
          (\<exists>srv. map_of service h = Some (JObj srv) \<and>
             new_ServerStats h (IP val) srv = Inr e))"
proof -
  from assms(1) obtain service source total_connections curr_connections where
    loop: "for_each (service_body stats) config
       \<lparr>Service = service, Source = source,
        TotalConnections = total_connections,
        CurrentConnections = curr_connections,
        ExpectedAvailable = 0, NotAvailable = 0, Services = []\<rparr> = Inr twemp"
    by (rule parse_decoded_Inr)
  from service_loop_services [OF loop assms(2)] obtain conf t0 t1 where
    mem: "(key, conf) \<in> set config" and present: "map_of stats key \<noteq> None" and
    step: "service_body stats (key, conf) t0 = Inr t1" and
    upd: "Services t1 = AList.update key serviceStats (Services t0)"
    by auto
  from present obtain s where s: "map_of stats key = Some s" by blast
  from s step obtain service ss where
    p: "s = JObj service"
      "\<forall>f\<in>set service_fields. \<exists>x. map_of service f = Some (JNum x)"
      "t1 = t0
         \<lparr>ExpectedAvailable := ExpectedAvailable t0 + int (length (Servers conf)),
          NotAvailable := NotAvailable t0 +
            int (length (filter (not_available service) (Servers conf))),
          Services := AList.update key ss (Services t0)\<rparr>"
      "Name ss = key"
      "svcExpectedAvailable ss = int (length (Servers conf))"
      "svcNotAvailable ss = int (length (filter (not_available service) (Servers conf)))"
      "distinct (map fst (svcServers ss))"
      "fst ` set (svcServers ss) =
         {host_of val |val. val \<in> set (Servers conf) \<and> map_of service (host_of val) \<noteq> None}"
      "\<forall>h e. map_of (svcServers ss) h = Some e \<longrightarrow>
         (\<exists>val\<in>set (Servers conf). host_of val = h \<and>
            (\<exists>srv. map_of service h = Some (JObj srv) \<and>
               new_ServerStats h (IP val) srv = Inr e))"
    by (rule service_body_emitted)
  from p(3) upd have "AList.update key ss (Services t0) = AList.update key serviceStats (Services t0)"
    by simp
  then have eq: "ss = serviceStats" by (rule update_eqD)
  from s p(1) have s': "map_of stats key = Some (JObj service)" by simp
  show ?thesis
    by (rule that [OF mem s' p(2) p(4-9) [unfolded eq]])
qed



lemma server_body_cong:
  "map_of service1 (host_of val) = map_of service2 (host_of val) \<Longrightarrow>
   server_body service1 val st = server_body service2 val st"
  by (simp add: server_body_def)

lemma service_body_cong_lookup:
  "map_of stats1 key = map_of stats2 key \<Longrightarrow>
   service_body stats1 (key, conf) twemp = service_body stats2 (key, conf) twemp"
  by (simp add: service_body_def)

lemma service_body_cong_block:
  assumes "map_of stats1 key = Some (JObj service1)"
    and "map_of stats2 key = Some (JObj service2)"
    and "\<forall>f\<in>set service_fields. map_of service1 f = map_of service2 f"
    and "\<forall>val\<in>set (Servers conf). map_of service1 (host_of val) = map_of service2 (host_of val)"
  shows "service_body stats1 (key, conf) twemp = service_body stats2 (key, conf) twemp"
proof -
  have loop: "for_each (server_body service1) (Servers conf) st =
              for_each (server_body service2) (Servers conf) st" for st
    by (rule for_each_cong, rule server_body_cong) (simp add: assms(4))
  from assms(3) have
    "map_of service1 ''client_eof'' = map_of service2 ''client_eof''"
    "map_of service1 ''client_err'' = map_of service2 ''client_err''"
    "map_of service1 ''client_connections'' = map_of service2 ''client_connections''"
    "map_of service1 ''server_ejects'' = map_of service2 ''server_ejects''"
    "map_of service1 ''forward_error'' = map_of service2 ''forward_error''"
    "map_of service1 ''fragments'' = map_of service2 ''fragments''"
    by (simp_all add: service_fields_def)
  then show ?thesis
    by (simp add: service_body_def assms(1,2) loop)
qed

lemma parse_decoded_cong:
  assumes "assert_string (map_of stats1 ''service'') = assert_string (map_of stats2 ''service'')"
    and "assert_string (map_of stats1 ''source'') = assert_string (map_of stats2 ''source'')"
    and "assert_float64 (map_of stats1 ''total_connections'') =
         assert_float64 (map_of stats2 ''total_connections'')"
    and "assert_float64 (map_of stats1 ''curr_connections'') =
         assert_float64 (map_of stats2 ''curr_connections'')"
    and "\<And>entry twemp. entry \<in> set config \<Longrightarrow>
           service_body stats1 entry twemp = service_body stats2 entry twemp"
  shows "parse_decoded stats1 config = parse_decoded stats2 config"
proof -
  have "for_each (service_body stats1) config twemp = for_each (service_body stats2) config twemp"
    for twemp
    by (rule for_each_cong) (rule assms(5))
  with assms(1-4) show ?thesis
    by (simp add: parse_decoded_def)
qed

lemma parse_decoded_undeclared:
  assumes "map_of stats1 key = Some (JObj service1)"
    and "map_of stats2 key = Some (JObj service2)"
    and "\<forall>k. k \<noteq> key \<longrightarrow> map_of stats1 k = map_of stats2 k"
    and "\<forall>f\<in>set service_fields. map_of service1 f = map_of service2 f"
    and "\<forall>conf val. (key, conf) \<in> set config \<and> val \<in> set (Servers conf) \<longrightarrow>
           map_of service1 (host_of val) = map_of service2 (host_of val)"
  shows "parse_decoded stats1 config = parse_decoded stats2 config"
proof (rule parse_decoded_cong)
  show "assert_string (map_of stats1 f) = assert_string (map_of stats2 f)" for f
    using assms(1-3) by (cases "f = key") simp_all
  then show "assert_string (map_of stats1 ''source'') = assert_string (map_of stats2 ''source'')" .
  show a: "assert_float64 (map_of stats1 f) = assert_float64 (map_of stats2 f)" for f
    using assms(1-3) by (cases "f = key") simp_all
  then show "assert_float64 (map_of stats1 ''curr_connections'') =
         assert_float64 (map_of stats2 ''curr_connections'')" .
  fix entry :: "string \<times> Config" and twemp
  assume mem: "entry \<in> set config"
  obtain k conf where entry: "entry = (k, conf)" by (cases entry)
  show "service_body stats1 entry twemp = service_body stats2 entry twemp"
  proof (cases "k = key")
    case True
    with mem entry assms(5)
    have "\<forall>val\<in>set (Servers conf). map_of service1 (host_of val) = map_of service2 (host_of val)"
      by blast
    with assms(1,2,4) show ?thesis
      unfolding entry True by (rule service_body_cong_block)
  next
    case False
    with assms(3) have "map_of stats1 k = map_of stats2 k" by simp
    then show ?thesis unfolding entry by (rule service_body_cong_lookup)
  qed
qed

lemma for_each_filter:
  assumes "\<And>x s. x \<in> set xs \<Longrightarrow> \<not> P x \<Longrightarrow> body x s = Inr s"
  shows "for_each body (filter P xs) s = for_each body xs s"
  using assms
proof (induction xs arbitrary: s)
  case Nil
  show ?case by simp
next
  case (Cons x xs)
  have ih: "for_each body (filter P xs) s' = for_each body xs s'" for s'
    by (rule Cons.IH) (rule Cons.prems, simp_all)
  show ?case
  proof (cases "P x")
    case True
    then show ?thesis by (simp add: ih and_then_def split: sum.splits)
  next
    case False
    then have "body x s = Inr s" by (intro Cons.prems) simp_all
    with False show ?thesis by (simp add: ih)
  qed
qed

lemma for_each_Inr_steps:
  assumes "for_each body xs s = Inr s'" and "x \<in> set xs"
  shows "\<exists>t t'. body x t = Inr t'"
  using assms
proof (induction xs arbitrary: s)
  case Nil
  then show ?case by simp
next
  case (Cons y ys)
  from Cons.prems(1) obtain s1 where
    step: "body y s = Inr s1" and rest: "for_each body ys s1 = Inr s'"
    by (auto simp add: and_then_eq_Inr)
  show ?case
  proof (cases "x = y")
    case True
    with step show ?thesis by blast
  next
    case False
    with Cons.prems(2) have "x \<in> set ys" by simp
    with rest show ?thesis by (rule Cons.IH)
  qed
qed

lemma service_body_loop:
  assumes "map_of stats key = Some (JObj service)"
    and "service_body stats (key, conf) twemp = Inr twemp'"
  shows "\<exists>st st'. for_each (server_body service) (Servers conf) st = Inr st'"
  using assms
  unfolding service_body_def Let_def prod.case
  by (auto simp add: and_then_eq_Inr assert_map_Inr)

lemma parse_decoded_steps:
  assumes "parse_decoded stats config = Inr twemp" and "entry \<in> set config"
  shows "\<exists>t t'. service_body stats entry t = Inr t'"
proof -
  from assms(1) obtain service source total_connections curr_connections where
    "for_each (service_body stats) config
       \<lparr>Service = service, Source = source,
        TotalConnections = total_connections,
        CurrentConnections = curr_connections,
        ExpectedAvailable = 0, NotAvailable = 0, Services = []\<rparr> = Inr twemp"
    by (rule parse_decoded_Inr)
  then show ?thesis using assms(2) by (rule for_each_Inr_steps)
qed

lemma parse_decoded_panics:
  assumes "\<And>twemp. parse_decoded stats config \<noteq> Inr twemp"
  shows "parse_decoded stats config = Inl TypeAssertionPanic"
proof (cases "parse_decoded stats config")
  case (Inl e)
  with parse_decoded_Inl [OF Inl] show ?thesis by simp
next
  case (Inr twemp)
  with assms [of twemp] show ?thesis by (elim notE)
qed

lemma for_each_total:
  assumes "\<And>x s. x \<in> set xs \<Longrightarrow> \<exists>s'. body x s = Inr s'"
  shows "\<exists>s'. for_each body xs s = Inr s'"
  using assms
proof (induction xs arbitrary: s)
  case Nil
  show ?case by simp
next
  case (Cons x xs)
  from Cons.prems [of x s] obtain s1 where step: "body x s = Inr s1" by auto
  have "\<exists>s'. for_each body xs s1 = Inr s'"
    by (rule Cons.IH) (rule Cons.prems, simp)
  with step show ?case by simp
qed

lemma server_body_total:
  assumes "map_of service (host_of val) = Some (JObj srv)"
    and "\<forall>f\<in>set server_fields. \<exists>x. map_of srv f = Some (JNum x)"
  shows "\<exists>st'. server_body service val st = Inr st'"
proof -
  from new_ServerStats_total [OF assms(2)] obtain e where
    "new_ServerStats (host_of val) (IP val) srv = Inr e" by blast
  with assms(1) show ?thesis
    by (cases st) (simp add: server_body_def Let_def)
qed

lemma service_body_total:
  assumes "map_of stats key = Some (JObj service)"
    and "\<forall>f\<in>set service_fields. \<exists>x. map_of service f = Some (JNum x)"
    and "\<forall>val\<in>set (Servers conf). \<exists>srv. map_of service (host_of val) = Some (JObj srv) \<and>
           (\<forall>f\<in>set server_fields. \<exists>x. map_of srv f = Some (JNum x))"
  shows "\<exists>twemp'. service_body stats (key, conf) twemp = Inr twemp'"
proof -
  from assms(2) obtain a1 a2 a3 a4 a5 a6 where f:
    "map_of service ''client_eof'' = Some (JNum a1)"
    "map_of service ''client_err'' = Some (JNum a2)"
    "map_of service ''client_connections'' = Some (JNum a3)"
    "map_of service ''server_ejects'' = Some (JNum a4)"
    "map_of service ''forward_error'' = Some (JNum a5)"
    "map_of service ''fragments'' = Some (JNum a6)"
    unfolding service_fields_def by (simp only: list.set ball_simps) blast
  have "\<exists>st'. for_each (server_body service) (Servers conf) st = Inr st'" for st
  proof (rule for_each_total)
    fix val st
    assume "val \<in> set (Servers conf)"
    with assms(3) obtain srv where
      "map_of service (host_of val) = Some (JObj srv)"
      "\<forall>f\<in>set server_fields. \<exists>x. map_of srv f = Some (JNum x)"
      by blast
    then show "\<exists>st'. server_body service val st = Inr st'"
      by (rule server_body_total)
  qed
  then obtain st' where
    "for_each (server_body service) (Servers conf)
       (twemp\<lparr>ExpectedAvailable := ExpectedAvailable twemp + int (length (Servers conf))\<rparr>,
        \<lparr>Name = key, ClientEOF = 0, ClientErr = 0, ClientConnections = 0,
         ServerEjects = 0, ForwardError = 0, Fragments = 0,
         svcExpectedAvailable = int (length (Servers conf)),
         svcNotAvailable = 0, svcServers = []\<rparr>
        \<lparr>ClientEOF := a1, ClientErr := a2, ClientConnections := a3,
         ServerEjects := a4, ForwardError := a5, Fragments := a6\<rparr>) = Inr st'"
    by blast
  then show ?thesis
    unfolding service_body_def Let_def prod.case
    by (cases st') (simp add: assms(1) f)
qed

lemma parse_decoded_total:
  assumes "map_of stats ''service'' = Some (JStr service)"
    and "map_of stats ''source'' = Some (JStr source)"
    and "map_of stats ''total_connections'' = Some (JNum total_connections)"
    and "map_of stats ''curr_connections'' = Some (JNum curr_connections)"
    and "\<And>entry twemp. entry \<in> set config \<Longrightarrow> \<exists>twemp'. service_body stats entry twemp = Inr twemp'"
  shows "\<exists>twemp. parse_decoded stats config = Inr twemp"
proof -
  have "\<exists>twemp'. for_each (service_body stats) config twemp = Inr twemp'" for twemp
    by (rule for_each_total) (rule assms(5))
  then show ?thesis
    by (simp add: parse_decoded_def assms(1-4))
qed

lemma sum_list_all_zero:
  fixes f :: "'a \<Rightarrow> int"
  assumes "\<And>x. x \<in> set xs \<Longrightarrow> f x = 0"
  shows "sum_list (map f xs) = 0"
  using assms by (induction xs) simp_all

section \<open>The claims\<close>

text \<open>
  C8. In every snapshot that \<open>parseStats\<close> returns, the \<open>NotAvailable\<close> counters of the
  entries of \<open>Services\<close> add up to the top-level \<open>NotAvailable\<close>, and their
  \<open>ExpectedAvailable\<close> counters add up to the top-level \<open>ExpectedAvailable\<close>. The
  topology is a Go map, so its keys are distinct; the entries of \<open>Services\<close> then have
  distinct keys too, so the sums run over the map's entries.
\<close>

theorem sums_additive:
  assumes "distinct (map fst config)"
    and "parseStats unmarshal statsContent config = Inr twemp"
  shows "sum_list (map (\<lambda>(key, serviceStats). svcNotAvailable serviceStats) (Services twemp))
           = NotAvailable twemp \<and>
         sum_list (map (\<lambda>(key, serviceStats). svcExpectedAvailable serviceStats) (Services twemp))
           = ExpectedAvailable twemp \<and>
         distinct (map fst (Services twemp))"
proof -
  from assms(2) obtain stats where "parse_decoded stats config = Inr twemp"
    by (auto simp add: parseStats_def split: sum.splits)
  then obtain service source total_connections curr_connections where
    loop: "for_each (service_body stats) config
       \<lparr>Service = service, Source = source,
        TotalConnections = total_connections,
        CurrentConnections = curr_connections,
        ExpectedAvailable = 0, NotAvailable = 0, Services = []\<rparr> = Inr twemp"
    by (rule parse_decoded_Inr)
  have "sum_list (map (\<lambda>(key, serviceStats). svcNotAvailable serviceStats) (Services twemp))
           = NotAvailable twemp \<and>
         sum_list (map (\<lambda>(key, serviceStats). svcExpectedAvailable serviceStats) (Services twemp))
           = ExpectedAvailable twemp"
    by (rule service_loop_sums [OF loop assms(1)]) simp_all
  moreover have "distinct (map fst (Services twemp))"
    by (rule service_loop_distinct [OF loop]) simp
  ultimately show ?thesis by simp
qed

theorem sums_additive_witness:
  "distinct (map fst example_config) \<and>
   parseStats (decodes_to example_stats) example_content example_config = Inr example_result \<and>
   sum_list (map (\<lambda>(key, serviceStats). svcNotAvailable serviceStats) (Services example_result))
     = NotAvailable example_result \<and>
   sum_list (map (\<lambda>(key, serviceStats). svcExpectedAvailable serviceStats) (Services example_result))
     = ExpectedAvailable example_result \<and>
   distinct (map fst (Services example_result))"
proof -
  have d: "distinct (map fst example_config)"
    by (simp add: example_config_def)
  have p: "parseStats (decodes_to example_stats) example_content example_config = Inr example_result"
    by code_simp
  from sums_additive [OF d p] d p show ?thesis by simp
qed

text \<open>
  C9. In every snapshot that \<open>parseStats\<close> returns, \<open>NotAvailable\<close> is at most
  \<open>ExpectedAvailable\<close>, at the top level and in every entry of \<open>Services\<close>, where
  \<open>ExpectedAvailable\<close> is the number of backends the topology declares for that service.
\<close>

theorem not_available_bounded:
  assumes "distinct (map fst config)"
    and "parseStats unmarshal statsContent config = Inr twemp"
  shows "NotAvailable twemp \<le> ExpectedAvailable twemp \<and>
         (\<forall>key serviceStats. map_of (Services twemp) key = Some serviceStats \<longrightarrow>
            svcNotAvailable serviceStats \<le> svcExpectedAvailable serviceStats \<and>
            (\<exists>conf. map_of config key = Some conf \<and>
               svcExpectedAvailable serviceStats = int (length (Servers conf))))"
proof -
  from assms(2) obtain stats where dec: "parse_decoded stats config = Inr twemp"
    by (rule parseStats_Inr)
  have "sum_list (map (\<lambda>(key, conf).
             case map_of stats key of
               Some (JObj service) \<Rightarrow> int (length (filter (not_available service) (Servers conf)))
             | _ \<Rightarrow> 0) config)
        \<le> sum_list (map (\<lambda>(key, conf).
             if map_of stats key = None then 0 else int (length (Servers conf))) config)"
    by (rule sum_list_mono) (auto split: option.splits json.splits)
  then have top: "NotAvailable twemp \<le> ExpectedAvailable twemp"
    by (simp add: parse_decoded_counts [OF dec])
  have "svcNotAvailable serviceStats \<le> svcExpectedAvailable serviceStats \<and>
        (\<exists>conf. map_of config key = Some conf \<and>
           svcExpectedAvailable serviceStats = int (length (Servers conf)))"
    if "map_of (Services twemp) key = Some serviceStats" for key serviceStats
  proof -
    from dec that obtain conf service where
      mem: "(key, conf) \<in> set config" and
      ea: "svcExpectedAvailable serviceStats = int (length (Servers conf))" and
      na: "svcNotAvailable serviceStats =
             int (length (filter (not_available service) (Servers conf)))"
      by (rule parse_decoded_service)
    from mem assms(1) have "map_of config key = Some conf" by simp
    with ea na show ?thesis by simp
  qed
  with top show ?thesis by blast
qed

theorem not_available_bounded_witness:
  "distinct (map fst example_config) \<and>
   parseStats (decodes_to example_stats) example_content example_config = Inr example_result \<and>
   NotAvailable example_result \<le> ExpectedAvailable example_result \<and>
   map_of (Services example_result) ''gamma'' = Some example_gamma_stats \<and>
   svcNotAvailable example_gamma_stats \<le> svcExpectedAvailable example_gamma_stats \<and>
   (\<exists>conf. map_of example_config ''gamma'' = Some conf \<and>
      svcExpectedAvailable example_gamma_stats = int (length (Servers conf)))"
proof -
  have d: "distinct (map fst example_config)"
    by (simp add: example_config_def)
  have p: "parseStats (decodes_to example_stats) example_content example_config = Inr example_result"
    by code_simp
  have g: "map_of (Services example_result) ''gamma'' = Some example_gamma_stats"
    by (simp add: example_result_def)
  note inst = not_available_bounded [OF d p]
  from inst [THEN conjunct1] inst [THEN conjunct2, rule_format, OF g] d p g
  show ?thesis by blast
qed



text \<open>
  C10. Let \<open>parseStats\<close> return a snapshot for a payload. Every entry of the \<open>Servers\<close>
  map of every entry of \<open>Services\<close> is stored under the resolved host key (the alias if
  it is not empty, else the address) of a backend that the topology declares for that
  service, and its \<open>Host\<close> is that key. Moreover a payload that differs from the given one
  only inside one service's sub-document, and there neither at the six scalar fields nor
  at the key of any declared backend of that service, gives the very same snapshot:
  entries that match no declared backend produce no \<open>ServerStats\<close> and change no
  counter.
\<close>

theorem servers_are_declared_backends:
  assumes "distinct (map fst config)"
    and "unmarshal statsContent = Inr stats"
    and "parseStats unmarshal statsContent config = Inr twemp"
  shows "(\<forall>key serviceStats h e.
            map_of (Services twemp) key = Some serviceStats \<and>
            map_of (svcServers serviceStats) h = Some e \<longrightarrow>
            Host e = h \<and>
            (\<exists>conf val. map_of config key = Some conf \<and> val \<in> set (Servers conf) \<and>
               h = (if Alias val \<noteq> [] then Alias val else IP val))) \<and>
         (\<forall>unmarshal' statsContent' stats' key service service'.
            unmarshal' statsContent' = Inr stats' \<and>
            map_of stats key = Some (JObj service) \<and>
            map_of stats' key = Some (JObj service') \<and>
            (\<forall>k. k \<noteq> key \<longrightarrow> map_of stats' k = map_of stats k) \<and>
            (\<forall>f\<in>set service_fields. map_of service' f = map_of service f) \<and>
            (\<forall>conf val. (key, conf) \<in> set config \<and> val \<in> set (Servers conf) \<longrightarrow>
               map_of service' (host_of val) = map_of service (host_of val)) \<longrightarrow>
            parseStats unmarshal' statsContent' config = Inr twemp)"
proof (intro conjI allI impI)
  from assms(2,3) have dec: "parse_decoded stats config = Inr twemp"
    by (simp add: parseStats_def)
  {
    fix key serviceStats h e
    assume a: "map_of (Services twemp) key = Some serviceStats \<and>
               map_of (svcServers serviceStats) h = Some e"
    then have ss: "map_of (Services twemp) key = Some serviceStats"
      and e: "map_of (svcServers serviceStats) h = Some e"
      by simp_all
    from dec ss obtain conf service where
      mem: "(key, conf) \<in> set config" and
      entries: "\<forall>h e. map_of (svcServers serviceStats) h = Some e \<longrightarrow>
         (\<exists>val\<in>set (Servers conf). host_of val = h \<and>
            (\<exists>srv. map_of service h = Some (JObj srv) \<and>
               new_ServerStats h (IP val) srv = Inr e))"
      by (rule parse_decoded_service)
    from entries [rule_format, OF e] obtain val srv where
      val: "val \<in> set (Servers conf)" "host_of val = h" and
      new: "new_ServerStats h (IP val) srv = Inr e"
      by blast
    from mem assms(1) have conf: "map_of config key = Some conf" by simp
    show "Host e = h" by (rule new_ServerStats_Inr(1) [OF new])
    from val conf
    show "\<exists>conf val. map_of config key = Some conf \<and> val \<in> set (Servers conf) \<and>
               h = (if Alias val \<noteq> [] then Alias val else IP val)"
      unfolding host_of_def by blast
  next
    fix unmarshal' :: "string \<Rightarrow> string + (string \<times> json) list"
      and statsContent' stats' key service service'
    assume a: "unmarshal' statsContent' = Inr stats' \<and>
            map_of stats key = Some (JObj service) \<and>
            map_of stats' key = Some (JObj service') \<and>
            (\<forall>k. k \<noteq> key \<longrightarrow> map_of stats' k = map_of stats k) \<and>
            (\<forall>f\<in>set service_fields. map_of service' f = map_of service f) \<and>
            (\<forall>conf val. (key, conf) \<in> set config \<and> val \<in> set (Servers conf) \<longrightarrow>
               map_of service' (host_of val) = map_of service (host_of val))"
    then have "parse_decoded stats' config = parse_decoded stats config"
      by (intro parse_decoded_undeclared [of stats' key service' stats service]) blast+
    with a dec show "parseStats unmarshal' statsContent' config = Inr twemp"
      by (simp add: parseStats_def)
  }
qed

theorem servers_are_declared_backends_witness:
  "distinct (map fst example_config) \<and>
   decodes_to example_stats example_content = Inr example_stats \<and>
   parseStats (decodes_to example_stats) example_content example_config = Inr example_result \<and>
   map_of (Services example_result) ''alpha'' = Some example_alpha_stats \<and>
   map_of (svcServers example_alpha_stats) ''cache2'' = Some example_cache2_stats \<and>
   Host example_cache2_stats = ''cache2'' \<and>
   (\<exists>conf val. map_of example_config ''alpha'' = Some conf \<and> val \<in> set (Servers conf) \<and>
      ''cache2'' = (if Alias val \<noteq> [] then Alias val else IP val)) \<and>
   decodes_to example_stats_declared example_content = Inr example_stats_declared \<and>
   map_of example_stats ''gamma'' = Some (JObj example_gamma) \<and>
   map_of example_stats_declared ''gamma'' = Some (JObj example_gamma_declared) \<and>
   map_of example_gamma ''10.9.9.9'' = Some (example_server 4) \<and>
   map_of example_gamma_declared ''10.9.9.9'' = None \<and>
   parseStats (decodes_to example_stats_declared) example_content example_config
     = Inr example_result"
proof -
  have d: "distinct (map fst example_config)"
    by (simp add: example_config_def)
  have u: "decodes_to example_stats example_content = Inr example_stats"
    by (simp add: decodes_to_def)
  have p: "parseStats (decodes_to example_stats) example_content example_config = Inr example_result"
    by code_simp
  have a1: "map_of (Services example_result) ''alpha'' = Some example_alpha_stats"
    by (simp add: example_result_def)
  have a2: "map_of (svcServers example_alpha_stats) ''cache2'' = Some example_cache2_stats"
    by (simp add: example_alpha_stats_def)
  have u': "decodes_to example_stats_declared example_content = Inr example_stats_declared"
    by (simp add: decodes_to_def)
  have g: "map_of example_stats ''gamma'' = Some (JObj example_gamma)"
    by (simp add: example_stats_def)
  have g': "map_of example_stats_declared ''gamma'' = Some (JObj example_gamma_declared)"
    by (simp add: example_stats_declared_def)
  have o: "\<forall>k. k \<noteq> ''gamma'' \<longrightarrow> map_of example_stats_declared k = map_of example_stats k"
    by (simp add: example_stats_declared_def example_stats_def)
  have f: "\<forall>f\<in>set service_fields. map_of example_gamma_declared f = map_of example_gamma f"
    by (simp add: service_fields_def example_gamma_declared_def example_gamma_def
          example_scalars_def)
  have b: "\<forall>conf val. (''gamma'', conf) \<in> set example_config \<and> val \<in> set (Servers conf) \<longrightarrow>
      map_of example_gamma_declared (host_of val) = map_of example_gamma (host_of val)"
    by (auto simp add: example_config_def example_gamma_conf_def example_conf_def host_of_def
          example_gamma_declared_def example_gamma_def example_scalars_def)
  note inst = servers_are_declared_backends [OF d u p]
  from inst [THEN conjunct1, rule_format, of "''alpha''" example_alpha_stats "''cache2''"
      example_cache2_stats] a1 a2
  have c1: "Host example_cache2_stats = ''cache2'' \<and>
    (\<exists>conf val. map_of example_config ''alpha'' = Some conf \<and> val \<in> set (Servers conf) \<and>
      ''cache2'' = (if Alias val \<noteq> [] then Alias val else IP val))"
    by blast
  from inst [THEN conjunct2, rule_format, of "decodes_to example_stats_declared" example_content
      example_stats_declared "''gamma''" example_gamma example_gamma_declared] u' g g' o f b
  have c2: "parseStats (decodes_to example_stats_declared) example_content example_config
     = Inr example_result"
    by blast
  have x: "map_of example_gamma ''10.9.9.9'' = Some (example_server 4)"
    by (simp add: example_gamma_def example_scalars_def)
  have x': "map_of example_gamma_declared ''10.9.9.9'' = None"
    by (simp add: example_gamma_declared_def example_scalars_def)
  from d u p a1 a2 c1 u' g g' x x' c2 show ?thesis by blast
qed

text \<open>
  C1, as stated, fails. The topology declares \<open>beta\<close> with three backends and the payload
  has no key \<open>beta\<close>; the returned \<open>ExpectedAvailable\<close> is 4, the backends of \<open>alpha\<close> and
  \<open>gamma\<close>, and not 7: line 78 leaves the loop body before line 80 adds the service's
  backends.
\<close>

theorem absent_service_counterexample:
  "parseStats (decodes_to example_stats) example_content example_config = Inr example_result \<and>
   map_of example_config ''beta'' = Some example_beta_conf \<and>
   map_of example_stats ''beta'' = None \<and>
   int (length (Servers example_beta_conf)) = 3 \<and>
   int (length (Servers example_alpha_conf)) + int (length (Servers example_beta_conf))
     + int (length (Servers example_gamma_conf)) = 7 \<and>
   ExpectedAvailable example_result = 4 \<and>
   ExpectedAvailable example_result =
     int (length (Servers example_alpha_conf)) + int (length (Servers example_gamma_conf))"
proof -
  have "parseStats (decodes_to example_stats) example_content example_config = Inr example_result"
    by code_simp
  moreover have "map_of example_config ''beta'' = Some example_beta_conf"
    by (simp add: example_config_def)
  moreover have "map_of example_stats ''beta'' = None"
    by (simp add: example_stats_def)
  moreover have "int (length (Servers example_beta_conf)) = 3"
    by (simp add: example_beta_conf_def example_conf_def)
  moreover have "int (length (Servers example_alpha_conf)) = 2"
    by (simp add: example_alpha_conf_def example_conf_def)
  moreover have "int (length (Servers example_gamma_conf)) = 2"
    by (simp add: example_gamma_conf_def example_conf_def)
  moreover have "ExpectedAvailable example_result = 4"
    by (simp add: example_result_def)
  ultimately show ?thesis by simp
qed

text \<open>
  C1, amended. When a service declared in the topology has no matching top-level key in
  the payload, \<open>parseStats\<close> skips it altogether: the result is the one for the topology
  without that service. So the service adds nothing to the top-level
  \<open>ExpectedAvailable\<close>, which is the number of declared backends of the services that the
  payload does have, nothing to \<open>NotAvailable\<close>, and \<open>Services\<close> has no entry for it.
\<close>

theorem absent_service_skipped:
  assumes "unmarshal statsContent = Inr stats"
    and "map_of stats key = None"
  shows "parseStats unmarshal statsContent config =
           parseStats unmarshal statsContent (filter (\<lambda>(k, conf). k \<noteq> key) config) \<and>
         (\<forall>twemp. parseStats unmarshal statsContent config = Inr twemp \<longrightarrow>
            map_of (Services twemp) key = None \<and>
            ExpectedAvailable twemp =
              sum_list (map (\<lambda>(k, conf).
                if map_of stats k = None then 0 else int (length (Servers conf))) config))"
proof (intro conjI allI impI)
  have "for_each (service_body stats) (filter (\<lambda>(k, conf). k \<noteq> key) config) twemp =
        for_each (service_body stats) config twemp" for twemp
    by (rule for_each_filter) (auto simp add: service_body_absent assms(2))
  then have "parse_decoded stats (filter (\<lambda>(k, conf). k \<noteq> key) config) =
             parse_decoded stats config"
    by (simp add: parse_decoded_def)
  with assms(1) show "parseStats unmarshal statsContent config =
           parseStats unmarshal statsContent (filter (\<lambda>(k, conf). k \<noteq> key) config)"
    by (simp add: parseStats_def)
next
  fix twemp
  assume "parseStats unmarshal statsContent config = Inr twemp"
  with assms(1) have dec: "parse_decoded stats config = Inr twemp"
    by (simp add: parseStats_def)
  from assms(2) have "key \<notin> fst ` set (Services twemp)"
    by (simp add: parse_decoded_keys(1) [OF dec])
  then show "map_of (Services twemp) key = None"
    by (simp add: map_of_eq_None_iff)
  show "ExpectedAvailable twemp =
              sum_list (map (\<lambda>(k, conf).
                if map_of stats k = None then 0 else int (length (Servers conf))) config)"
    by (rule parse_decoded_counts(1) [OF dec])
qed

theorem absent_service_skipped_witness:
  "decodes_to example_stats example_content = Inr example_stats \<and>
   map_of example_stats ''beta'' = None \<and>
   parseStats (decodes_to example_stats) example_content example_config =
     parseStats (decodes_to example_stats) example_content
       (filter (\<lambda>(k, conf). k \<noteq> ''beta'') example_config) \<and>
   parseStats (decodes_to example_stats) example_content example_config = Inr example_result \<and>
   map_of (Services example_result) ''beta'' = None \<and>
   ExpectedAvailable example_result =
     sum_list (map (\<lambda>(k, conf).
       if map_of example_stats k = None then 0 else int (length (Servers conf)))
       example_config)"
proof -
  have u: "decodes_to example_stats example_content = Inr example_stats"
    by (simp add: decodes_to_def)
  have b: "map_of example_stats ''beta'' = None"
    by (simp add: example_stats_def)
  have p: "parseStats (decodes_to example_stats) example_content example_config = Inr example_result"
    by code_simp
  note inst = absent_service_skipped [of "decodes_to example_stats" example_content example_stats
      "''beta''" example_config, OF u b]
  from inst [THEN conjunct2, rule_format, OF p] inst [THEN conjunct1] u b p
  show ?thesis by blast
qed

text \<open>
  C5, as stated, fails. The backend \<open>10.0.0.2\<close> is declared with the alias \<open>cache2\<close>; its
  entry has \<open>Host\<close> \<open>cache2\<close>, but \<open>HostAlias\<close> is the address: line 94 sets
  \<^verbatim>\<open>hostAlias\<close> to \<^verbatim>\<open>val.IP\<close> and nothing changes it afterwards.
\<close>

theorem display_alias_counterexample:
  "parseStats (decodes_to example_stats) example_content example_config = Inr example_result \<and>
   map_of example_config ''alpha'' = Some example_alpha_conf \<and>
   \<lparr>IP = ''10.0.0.2'', Alias = ''cache2''\<rparr> \<in> set (Servers example_alpha_conf) \<and>
   map_of (Services example_result) ''alpha'' = Some example_alpha_stats \<and>
   map_of (svcServers example_alpha_stats) ''cache2'' = Some example_cache2_stats \<and>
   Host example_cache2_stats = ''cache2'' \<and>
   HostAlias example_cache2_stats = ''10.0.0.2'' \<and>
   HostAlias example_cache2_stats \<noteq> ''cache2''"
proof -
  have "parseStats (decodes_to example_stats) example_content example_config = Inr example_result"
    by code_simp
  moreover have "map_of example_config ''alpha'' = Some example_alpha_conf"
    by (simp add: example_config_def)
  moreover have "\<lparr>IP = ''10.0.0.2'', Alias = ''cache2''\<rparr> \<in> set (Servers example_alpha_conf)"
    by (simp add: example_alpha_conf_def example_conf_def)
  moreover have "map_of (Services example_result) ''alpha'' = Some example_alpha_stats"
    by (simp add: example_result_def)
  moreover have "map_of (svcServers example_alpha_stats) ''cache2'' = Some example_cache2_stats"
    by (simp add: example_alpha_stats_def)
  moreover have "Host example_cache2_stats = ''cache2''"
    "HostAlias example_cache2_stats = ''10.0.0.2''"
    "HostAlias example_cache2_stats \<noteq> ''cache2''"
    by (simp_all add: example_cache2_stats_def)
  ultimately show ?thesis by blast
qed

text \<open>
  C5, amended. For every declared backend with a non-empty alias, the \<open>ServerStats\<close>
  emitted under that alias has \<open>Host\<close> equal to the alias, and \<open>HostAlias\<close> equal to the
  address of a declared backend of the service with that key: the backend's own address
  when no other backend of the service resolves to the same key.
\<close>

theorem alias_is_host_key:
  assumes "distinct (map fst config)"
    and "parseStats unmarshal statsContent config = Inr twemp"
    and "map_of config key = Some conf"
    and "val \<in> set (Servers conf)"
    and "Alias val \<noteq> []"
    and "map_of (Services twemp) key = Some serviceStats"
    and "map_of (svcServers serviceStats) (Alias val) = Some e"
  shows "Host e = Alias val \<and>
         (\<exists>val'\<in>set (Servers conf). host_of val' = Alias val \<and> HostAlias e = IP val') \<and>
         ((\<forall>val'\<in>set (Servers conf). host_of val' = Alias val \<longrightarrow> val' = val) \<longrightarrow>
            HostAlias e = IP val)"
proof -
  from assms(2) obtain stats where dec: "parse_decoded stats config = Inr twemp"
    by (rule parseStats_Inr)
  from dec assms(6) obtain conf' service where
    mem: "(key, conf') \<in> set config" and
    entries: "\<forall>h e. map_of (svcServers serviceStats) h = Some e \<longrightarrow>
       (\<exists>val\<in>set (Servers conf'). host_of val = h \<and>
          (\<exists>srv. map_of service h = Some (JObj srv) \<and>
             new_ServerStats h (IP val) srv = Inr e))"
    by (rule parse_decoded_service)
  from mem assms(1,3) have "conf' = conf" by simp
  with entries [rule_format, OF assms(7)] obtain val' srv where
    val': "val' \<in> set (Servers conf)" "host_of val' = Alias val" and
    new: "new_ServerStats (Alias val) (IP val') srv = Inr e"
    by blast
  have h: "Host e = Alias val" by (rule new_ServerStats_Inr(1) [OF new])
  have a: "HostAlias e = IP val'" by (rule new_ServerStats_Inr(2) [OF new])
  from val' a have "\<exists>val'\<in>set (Servers conf). host_of val' = Alias val \<and> HostAlias e = IP val'"
    by blast
  moreover from val' a
  have "(\<forall>val'\<in>set (Servers conf). host_of val' = Alias val \<longrightarrow> val' = val) \<longrightarrow>
            HostAlias e = IP val"
    by blast
  ultimately show ?thesis using h by blast
qed

theorem alias_is_host_key_witness:
  "distinct (map fst example_config) \<and>
   parseStats (decodes_to example_stats) example_content example_config = Inr example_result \<and>
   map_of example_config ''alpha'' = Some example_alpha_conf \<and>
   \<lparr>IP = ''10.0.0.2'', Alias = ''cache2''\<rparr> \<in> set (Servers example_alpha_conf) \<and>
   Alias \<lparr>IP = ''10.0.0.2'', Alias = ''cache2''\<rparr> \<noteq> [] \<and>
   map_of (Services example_result) ''alpha'' = Some example_alpha_stats \<and>
   map_of (svcServers example_alpha_stats) (Alias \<lparr>IP = ''10.0.0.2'', Alias = ''cache2''\<rparr>)
     = Some example_cache2_stats \<and>
   Host example_cache2_stats = Alias \<lparr>IP = ''10.0.0.2'', Alias = ''cache2''\<rparr> \<and>
   (\<exists>val'\<in>set (Servers example_alpha_conf).
      host_of val' = Alias \<lparr>IP = ''10.0.0.2'', Alias = ''cache2''\<rparr> \<and>
      HostAlias example_cache2_stats = IP val') \<and>
   HostAlias example_cache2_stats = IP \<lparr>IP = ''10.0.0.2'', Alias = ''cache2''\<rparr>"
proof -
  have d: "distinct (map fst example_config)"
    by (simp add: example_config_def)
  have p: "parseStats (decodes_to example_stats) example_content example_config = Inr example_result"
    by code_simp
  have c: "map_of example_config ''alpha'' = Some example_alpha_conf"
    by (simp add: example_config_def)
  have v: "\<lparr>IP = ''10.0.0.2'', Alias = ''cache2''\<rparr> \<in> set (Servers example_alpha_conf)"
    by (simp add: example_alpha_conf_def example_conf_def)
  have n: "Alias \<lparr>IP = ''10.0.0.2'', Alias = ''cache2''\<rparr> \<noteq> []"
    by simp
  have s: "map_of (Services example_result) ''alpha'' = Some example_alpha_stats"
    by (simp add: example_result_def)
  have e: "map_of (svcServers example_alpha_stats) (Alias \<lparr>IP = ''10.0.0.2'', Alias = ''cache2''\<rparr>)
     = Some example_cache2_stats"
    by (simp add: example_alpha_stats_def)
  have only: "\<forall>val'\<in>set (Servers example_alpha_conf).
      host_of val' = Alias \<lparr>IP = ''10.0.0.2'', Alias = ''cache2''\<rparr> \<longrightarrow>
      val' = \<lparr>IP = ''10.0.0.2'', Alias = ''cache2''\<rparr>"
    by (simp add: example_alpha_conf_def example_conf_def host_of_def)
  from alias_is_host_key [OF d p c v n s e] d p c v n s e only show ?thesis by blast
qed

text \<open>
  C3, as stated, fails. For a payload that decodes but has no \<open>source\<close> field,
  \<open>parseStats\<close> returns no error value: the assertion \<^verbatim>\<open>stats["source"].(string)\<close> of
  line 64 panics.
\<close>

theorem missing_field_counterexample:
  "map_of example_stats_no_source ''source'' = None \<and>
   parseStats (decodes_to example_stats_no_source) example_content example_config
     = Inl TypeAssertionPanic"
proof -
  have "map_of example_stats_no_source ''source'' = None"
    by (simp add: example_stats_no_source_def)
  moreover have "parseStats (decodes_to example_stats_no_source) example_content example_config
     = Inl TypeAssertionPanic"
    by code_simp
  ultimately show ?thesis by simp
qed

text \<open>
  C3, amended. For every payload that decodes but lacks one of the four top-level fields
  \<open>service\<close>, \<open>source\<close>, \<open>total_connections\<close>, \<open>curr_connections\<close>, or lacks one of the six
  scalar fields in the block of a service that the topology declares (or has any of
  these with the wrong shape), \<open>parseStats\<close> does not return: an unchecked type assertion
  panics, so there is neither an error value nor a snapshot, partial or not.
\<close>

theorem missing_field_panics:
  assumes "unmarshal statsContent = Inr stats"
    and "(\<nexists>s. map_of stats ''service'' = Some (JStr s)) \<or>
         (\<nexists>s. map_of stats ''source'' = Some (JStr s)) \<or>
         (\<nexists>x. map_of stats ''total_connections'' = Some (JNum x)) \<or>
         (\<nexists>x. map_of stats ''curr_connections'' = Some (JNum x)) \<or>
         (\<exists>key conf service f.
            (key, conf) \<in> set config \<and> map_of stats key = Some (JObj service) \<and>
            f \<in> set service_fields \<and> (\<nexists>x. map_of service f = Some (JNum x)))"
  shows "parseStats unmarshal statsContent config = Inl TypeAssertionPanic"
proof -
  have "parse_decoded stats config \<noteq> Inr twemp" for twemp
  proof
    assume dec: "parse_decoded stats config = Inr twemp"
    then obtain service source total_connections curr_connections where top:
      "map_of stats ''service'' = Some (JStr service)"
      "map_of stats ''source'' = Some (JStr source)"
      "map_of stats ''total_connections'' = Some (JNum total_connections)"
      "map_of stats ''curr_connections'' = Some (JNum curr_connections)"
      by (rule parse_decoded_Inr)
    with assms(2) obtain key conf service f where
      mem: "(key, conf) \<in> set config" and block: "map_of stats key = Some (JObj service)" and
      f: "f \<in> set service_fields" and missing: "\<nexists>x. map_of service f = Some (JNum x)"
      by blast
    from parse_decoded_steps [OF dec mem] obtain t t' where
      step: "service_body stats (key, conf) t = Inr t'"
      by blast
    from block step obtain service' where
      "JObj service = JObj service'"
      "\<forall>f\<in>set service_fields. \<exists>x. map_of service' f = Some (JNum x)"
      by (rule service_body_emitted)
    with f missing show False by blast
  qed
  then have "parse_decoded stats config = Inl TypeAssertionPanic"
    by (rule parse_decoded_panics)
  with assms(1) show ?thesis by (simp add: parseStats_def)
qed

theorem missing_field_panics_witness:
  "decodes_to example_stats_no_source example_content = Inr example_stats_no_source \<and>
   (\<nexists>s. map_of example_stats_no_source ''source'' = Some (JStr s)) \<and>
   parseStats (decodes_to example_stats_no_source) example_content example_config
     = Inl TypeAssertionPanic"
proof -
  have u: "decodes_to example_stats_no_source example_content = Inr example_stats_no_source"
    by (simp add: decodes_to_def)
  have m: "\<nexists>s. map_of example_stats_no_source ''source'' = Some (JStr s)"
    by (simp add: example_stats_no_source_def)
  then have "(\<nexists>s. map_of example_stats_no_source ''service'' = Some (JStr s)) \<or>
         (\<nexists>s. map_of example_stats_no_source ''source'' = Some (JStr s)) \<or>
         (\<nexists>x. map_of example_stats_no_source ''total_connections'' = Some (JNum x)) \<or>
         (\<nexists>x. map_of example_stats_no_source ''curr_connections'' = Some (JNum x)) \<or>
         (\<exists>key conf service f.
            (key, conf) \<in> set example_config \<and>
            map_of example_stats_no_source key = Some (JObj service) \<and>
            f \<in> set service_fields \<and> (\<nexists>x. map_of service f = Some (JNum x)))"
    by blast
  from missing_field_panics [of "decodes_to example_stats_no_source" example_content
      example_stats_no_source example_config, OF u this] u m
  show ?thesis by blast
qed

text \<open>
  C4, as stated, fails. The entry found for the declared backend \<open>cache2\<close> has no
  \<open>out_queue_bytes\<close> field; the field is not set to zero, the assertion of line 121
  panics.
\<close>

theorem absent_server_field_counterexample:
  "map_of example_config ''alpha'' = Some example_alpha_conf \<and>
   \<lparr>IP = ''10.0.0.2'', Alias = ''cache2''\<rparr> \<in> set (Servers example_alpha_conf) \<and>
   map_of example_stats_short ''alpha'' = Some (JObj example_alpha_short) \<and>
   map_of example_alpha_short (host_of \<lparr>IP = ''10.0.0.2'', Alias = ''cache2''\<rparr>)
     = Some (JObj example_server_short) \<and>
   map_of example_server_short ''out_queue_bytes'' = None \<and>
   parseStats (decodes_to example_stats_short) example_content example_config
     = Inl TypeAssertionPanic"
proof -
  have "map_of example_config ''alpha'' = Some example_alpha_conf"
    by (simp add: example_config_def)
  moreover have "\<lparr>IP = ''10.0.0.2'', Alias = ''cache2''\<rparr> \<in> set (Servers example_alpha_conf)"
    by (simp add: example_alpha_conf_def example_conf_def)
  moreover have "map_of example_stats_short ''alpha'' = Some (JObj example_alpha_short)"
    by (simp add: example_stats_short_def)
  moreover have "map_of example_alpha_short (host_of \<lparr>IP = ''10.0.0.2'', Alias = ''cache2''\<rparr>)
     = Some (JObj example_server_short)"
    by (simp add: example_alpha_short_def example_scalars_def host_of_def)
  moreover have "map_of example_server_short ''out_queue_bytes'' = None"
    by (simp add: example_server_short_def)
  moreover have "parseStats (decodes_to example_stats_short) example_content example_config
     = Inl TypeAssertionPanic"
    by code_simp
  ultimately show ?thesis by blast
qed

text \<open>
  C4, amended. For every declared backend whose resolved host key is found in its
  service's sub-document, if any of the thirteen server-level fields is absent from the
  entry found, \<open>parseStats\<close> panics on the unchecked type assertion and returns no
  snapshot; no field is defaulted to zero.
\<close>

theorem absent_server_field_panics:
  assumes "unmarshal statsContent = Inr stats"
    and "(key, conf) \<in> set config"
    and "map_of stats key = Some (JObj service)"
    and "val \<in> set (Servers conf)"
    and "map_of service (host_of val) = Some (JObj srv)"
    and "f \<in> set server_fields"
    and "map_of srv f = None"
  shows "parseStats unmarshal statsContent config = Inl TypeAssertionPanic"
proof -
  have "parse_decoded stats config \<noteq> Inr twemp" for twemp
  proof
    assume dec: "parse_decoded stats config = Inr twemp"
    from parse_decoded_steps [OF dec assms(2)] obtain t t' where
      "service_body stats (key, conf) t = Inr t'"
      by blast
    with assms(3) obtain st st' where
      "for_each (server_body service) (Servers conf) st = Inr st'"
      using service_body_loop by blast
    from for_each_Inr_steps [OF this assms(4)] obtain u u' where
      "server_body service val u = Inr u'"
      by blast
    then have "server_body service val (fst u, snd u) = Inr (fst u', snd u')"
      by simp
    from server_body_present [OF assms(5) this] obtain srv' e where
      "JObj srv = JObj srv'" "new_ServerStats (host_of val) (IP val) srv' = Inr e"
      by blast
    then have "new_ServerStats (host_of val) (IP val) srv = Inr e" by simp
    from new_ServerStats_Inr(4) [OF this] assms(6,7) show False by auto
  qed
  then have "parse_decoded stats config = Inl TypeAssertionPanic"
    by (rule parse_decoded_panics)
  with assms(1) show ?thesis by (simp add: parseStats_def)
qed

theorem absent_server_field_panics_witness:
  "decodes_to example_stats_short example_content = Inr example_stats_short \<and>
   (''alpha'', example_alpha_conf) \<in> set example_config \<and>
   map_of example_stats_short ''alpha'' = Some (JObj example_alpha_short) \<and>
   \<lparr>IP = ''10.0.0.2'', Alias = ''cache2''\<rparr> \<in> set (Servers example_alpha_conf) \<and>
   map_of example_alpha_short (host_of \<lparr>IP = ''10.0.0.2'', Alias = ''cache2''\<rparr>)
     = Some (JObj example_server_short) \<and>
   ''out_queue_bytes'' \<in> set server_fields \<and>
   map_of example_server_short ''out_queue_bytes'' = None \<and>
   parseStats (decodes_to example_stats_short) example_content example_config
     = Inl TypeAssertionPanic"
proof -
  have u: "decodes_to example_stats_short example_content = Inr example_stats_short"
    by (simp add: decodes_to_def)
  have c: "(''alpha'', example_alpha_conf) \<in> set example_config"
    by (simp add: example_config_def)
  have s: "map_of example_stats_short ''alpha'' = Some (JObj example_alpha_short)"
    by (simp add: example_stats_short_def)
  have v: "\<lparr>IP = ''10.0.0.2'', Alias = ''cache2''\<rparr> \<in> set (Servers example_alpha_conf)"
    by (simp add: example_alpha_conf_def example_conf_def)
  have e: "map_of example_alpha_short (host_of \<lparr>IP = ''10.0.0.2'', Alias = ''cache2''\<rparr>)
     = Some (JObj example_server_short)"
    by (simp add: example_alpha_short_def example_scalars_def host_of_def)
  have f: "''out_queue_bytes'' \<in> set server_fields"
    by (simp add: server_fields_def)
  have n: "map_of example_server_short ''out_queue_bytes'' = None"
    by (simp add: example_server_short_def)
  from absent_server_field_panics [of "decodes_to example_stats_short" example_content
      example_stats_short "''alpha''" example_alpha_conf example_config example_alpha_short
      "\<lparr>IP = ''10.0.0.2'', Alias = ''cache2''\<rparr>" example_server_short "''out_queue_bytes''",
      OF u c s v e f n] u c s v e f n
  show ?thesis by blast
qed

text \<open>
  C7. Let the payload decode and have its four top-level fields, and let every service of
  the topology have a fully populated block in it: the six scalar fields, and for every
  declared backend an entry with the thirteen server fields. Then \<open>parseStats\<close> returns a
  snapshot, its \<open>ExpectedAvailable\<close> is the sum of the declared backend counts over the
  topology, and its \<open>NotAvailable\<close> is 0 whenever the entry of every declared backend
  reports at least one connection.
\<close>

theorem fully_populated_counts:
  assumes "unmarshal statsContent = Inr stats"
    and "map_of stats ''service'' = Some (JStr service)"
    and "map_of stats ''source'' = Some (JStr source)"
    and "map_of stats ''total_connections'' = Some (JNum total_connections)"
    and "map_of stats ''curr_connections'' = Some (JNum curr_connections)"
    and "\<forall>(key, conf)\<in>set config. \<exists>block.
           map_of stats key = Some (JObj block) \<and>
           (\<forall>f\<in>set service_fields. \<exists>x. map_of block f = Some (JNum x)) \<and>
           (\<forall>val\<in>set (Servers conf). \<exists>srv.
              map_of block (host_of val) = Some (JObj srv) \<and>
              (\<forall>f\<in>set server_fields. \<exists>x. map_of srv f = Some (JNum x)))"
  shows "\<exists>twemp.
           parseStats unmarshal statsContent config = Inr twemp \<and>
           ExpectedAvailable twemp =
             sum_list (map (\<lambda>(key, conf). int (length (Servers conf))) config) \<and>
           ((\<forall>(key, conf)\<in>set config. \<forall>block. map_of stats key = Some (JObj block) \<longrightarrow>
               (\<forall>val\<in>set (Servers conf). \<forall>srv c.
                  map_of block (host_of val) = Some (JObj srv) \<and>
                  map_of srv ''server_connections'' = Some (JNum c) \<longrightarrow> 1 \<le> c)) \<longrightarrow>
            NotAvailable twemp = 0)"
proof -
  have "\<exists>twemp'. service_body stats entry twemp = Inr twemp'"
    if "entry \<in> set config" for entry twemp
  proof -
    obtain key conf where entry: "entry = (key, conf)" by (cases entry)
    with that assms(6) obtain block where
      "map_of stats key = Some (JObj block)"
      "\<forall>f\<in>set service_fields. \<exists>x. map_of block f = Some (JNum x)"
      "\<forall>val\<in>set (Servers conf). \<exists>srv. map_of block (host_of val) = Some (JObj srv) \<and>
           (\<forall>f\<in>set server_fields. \<exists>x. map_of srv f = Some (JNum x))"
      by blast
    then show ?thesis unfolding entry by (rule service_body_total)
  qed
  with assms(2-5) obtain twemp where dec: "parse_decoded stats config = Inr twemp"
    using parse_decoded_total by blast
  with assms(1) have p: "parseStats unmarshal statsContent config = Inr twemp"
    by (simp add: parseStats_def)
  have "map (\<lambda>(key, conf). if map_of stats key = None then 0 else int (length (Servers conf))) config
        = map (\<lambda>(key, conf). int (length (Servers conf))) config"
    by (rule map_cong) (use assms(6) in auto)
  then have ea: "ExpectedAvailable twemp =
             sum_list (map (\<lambda>(key, conf). int (length (Servers conf))) config)"
    by (simp only: parse_decoded_counts(1) [OF dec])
  have na: "NotAvailable twemp = 0"
    if up: "\<forall>(key, conf)\<in>set config. \<forall>block. map_of stats key = Some (JObj block) \<longrightarrow>
               (\<forall>val\<in>set (Servers conf). \<forall>srv c.
                  map_of block (host_of val) = Some (JObj srv) \<and>
                  map_of srv ''server_connections'' = Some (JNum c) \<longrightarrow> 1 \<le> c)"
  proof -
    have "sum_list (map (\<lambda>(key, conf).
             case map_of stats key of
               Some (JObj service) \<Rightarrow> int (length (filter (not_available service) (Servers conf)))
             | _ \<Rightarrow> 0) config) = 0"
    proof (rule sum_list_all_zero)
      fix entry :: "string \<times> Config"
      assume mem: "entry \<in> set config"
      obtain key conf where entry: "entry = (key, conf)" by (cases entry)
      from mem entry assms(6) obtain block where
        b: "map_of stats key = Some (JObj block)" and
        s: "\<forall>val\<in>set (Servers conf). \<exists>srv. map_of block (host_of val) = Some (JObj srv) \<and>
             (\<forall>f\<in>set server_fields. \<exists>x. map_of srv f = Some (JNum x))"
        by blast
      have "\<not> not_available block val" if v: "val \<in> set (Servers conf)" for val
      proof -
        from s v obtain srv where
          srv: "map_of block (host_of val) = Some (JObj srv)" and
          fs: "\<forall>f\<in>set server_fields. \<exists>x. map_of srv f = Some (JNum x)"
          by blast
        from fs obtain c where c: "map_of srv ''server_connections'' = Some (JNum c)"
          by (auto simp add: server_fields_def)
        from up mem entry b v srv c have "1 \<le> c" by blast
        with srv c show ?thesis by (simp add: not_available_def)
      qed
      then have "filter (not_available block) (Servers conf) = []"
        by (simp add: filter_empty_conv)
      with b show "(case entry of (key, conf) \<Rightarrow>
             case map_of stats key of
               Some (JObj service) \<Rightarrow> int (length (filter (not_available service) (Servers conf)))
             | _ \<Rightarrow> 0) = 0"
        by (simp add: entry)
    qed
    then show ?thesis by (simp only: parse_decoded_counts(2) [OF dec])
  qed
  from p ea na show ?thesis by blast
qed

theorem fully_populated_counts_witness:
  "decodes_to example_stats_full example_content = Inr example_stats_full \<and>
   map_of example_stats_full ''service'' = Some (JStr ''nutcracker'') \<and>
   map_of example_stats_full ''source'' = Some (JStr ''host1'') \<and>
   map_of example_stats_full ''total_connections'' = Some (JNum 12) \<and>
   map_of example_stats_full ''curr_connections'' = Some (JNum 3) \<and>
   (\<exists>twemp.
      parseStats (decodes_to example_stats_full) example_content example_config = Inr twemp \<and>
      ExpectedAvailable twemp =
        sum_list (map (\<lambda>(key, conf). int (length (Servers conf))) example_config) \<and>
      ExpectedAvailable twemp = 7 \<and>
      NotAvailable twemp = 0)"
proof -
  have u: "decodes_to example_stats_full example_content = Inr example_stats_full"
    by (simp add: decodes_to_def)
  have t1: "map_of example_stats_full ''service'' = Some (JStr ''nutcracker'')"
    and t2: "map_of example_stats_full ''source'' = Some (JStr ''host1'')"
    and t3: "map_of example_stats_full ''total_connections'' = Some (JNum 12)"
    and t4: "map_of example_stats_full ''curr_connections'' = Some (JNum 3)"
    by (simp_all add: example_stats_full_def)
  have full: "\<forall>(key, conf)\<in>set example_config. \<exists>block.
      map_of example_stats_full key = Some (JObj block) \<and>
      (\<forall>f\<in>set service_fields. \<exists>x. map_of block f = Some (JNum x)) \<and>
      (\<forall>val\<in>set (Servers conf). \<exists>srv.
         map_of block (host_of val) = Some (JObj srv) \<and>
         (\<forall>f\<in>set server_fields. \<exists>x. map_of srv f = Some (JNum x)))"
    by (simp add: example_config_def example_stats_full_def example_alpha_conf_def
          example_beta_conf_def example_gamma_conf_def example_conf_def
          example_alpha_full_def example_beta_full_def example_gamma_full_def
          example_scalars_def example_server_def service_fields_def server_fields_def
          host_of_def)
  have up: "\<forall>(key, conf)\<in>set example_config. \<forall>block.
      map_of example_stats_full key = Some (JObj block) \<longrightarrow>
      (\<forall>val\<in>set (Servers conf). \<forall>srv c.
         map_of block (host_of val) = Some (JObj srv) \<and>
         map_of srv ''server_connections'' = Some (JNum c) \<longrightarrow> 1 \<le> c)"
    by (auto simp add: example_config_def example_stats_full_def example_alpha_conf_def
          example_beta_conf_def example_gamma_conf_def example_conf_def
          example_alpha_full_def example_beta_full_def example_gamma_full_def
          example_scalars_def example_server_def host_of_def)
  have total: "sum_list (map (\<lambda>(key, conf). int (length (Servers conf))) example_config) = 7"
    by (simp add: example_config_def example_alpha_conf_def example_beta_conf_def
          example_gamma_conf_def example_conf_def)
  from fully_populated_counts [of "decodes_to example_stats_full" example_content
      example_stats_full "''nutcracker''" "''host1''" 12 3 example_config,
      OF u t1 t2 t3 t4 full] up
  obtain twemp where
    "parseStats (decodes_to example_stats_full) example_content example_config = Inr twemp"
    "ExpectedAvailable twemp =
        sum_list (map (\<lambda>(key, conf). int (length (Servers conf))) example_config)"
    "NotAvailable twemp = 0"
    by blast
  with total have "\<exists>twemp.
      parseStats (decodes_to example_stats_full) example_content example_config = Inr twemp \<and>
      ExpectedAvailable twemp =
        sum_list (map (\<lambda>(key, conf). int (length (Servers conf))) example_config) \<and>
      ExpectedAvailable twemp = 7 \<and>
      NotAvailable twemp = 0"
    by auto
  with u t1 t2 t3 t4 show ?thesis by blast
qed

text \<open>
  C2 does not hold of \<open>Run\<close>. When \<^verbatim>\<open>net.Dial\<close> fails, \<open>Run\<close> logs and goes on to call
  \<^verbatim>\<open>Read\<close> on the nil connection, which panics. When the read or the decoder fails, \<open>Run\<close>
  logs and goes on to publish the zero snapshot: the two connection gauges, 12 and 3
  before the tick, are 0 after it.
\<close>

theorem run_goes_on_after_errors:
  "Run unmarshal dial_refused hostname m w = Inl NilPointerPanic \<and>
   twemproxyMetrics example_sink (''total_connections'', [''exporter1'']) = Some 12 \<and>
   twemproxyMetrics example_sink (''current_connections'', [''exporter1'']) = Some 3 \<and>
   (\<exists>w'. Run decoder_rejects dial_connected ''exporter1'' example_monitor example_sink = Inr w' \<and>
      twemproxyMetrics w' (''total_connections'', [''exporter1'']) = Some 0 \<and>
      twemproxyMetrics w' (''current_connections'', [''exporter1'']) = Some 0 \<and>
      logged w' = [[''Failed to parse stats: '', ''unexpected end of JSON input'']]) \<and>
   (\<exists>w'. Run decoder_rejects dial_read_fails ''exporter1'' example_monitor example_sink = Inr w' \<and>
      twemproxyMetrics w' (''total_connections'', [''exporter1'']) = Some 0 \<and>
      twemproxyMetrics w' (''current_connections'', [''exporter1'']) = Some 0 \<and>
      logged w' = [[''Error when read reply from tcp '', ''EOF''],
                   [''Failed to parse stats: '', ''unexpected end of JSON input'']])"
proof (intro conjI)
  show "Run unmarshal dial_refused hostname m w = Inl NilPointerPanic"
    by (simp add: Run_def dial_refused_def)
  show "twemproxyMetrics example_sink (''total_connections'', [''exporter1'']) = Some 12"
    by (simp add: example_sink_def)
  show "twemproxyMetrics example_sink (''current_connections'', [''exporter1'']) = Some 3"
    by (simp add: example_sink_def)
  show "\<exists>w'. Run decoder_rejects dial_connected ''exporter1'' example_monitor example_sink = Inr w' \<and>
      twemproxyMetrics w' (''total_connections'', [''exporter1'']) = Some 0 \<and>
      twemproxyMetrics w' (''current_connections'', [''exporter1'']) = Some 0 \<and>
      logged w' = [[''Failed to parse stats: '', ''unexpected end of JSON input'']]"
    by (simp add: Run_def dial_connected_def decoder_rejects_def parseStats_def publish_def
          zero_TwemproxyStats_def log_Println_def example_sink_def example_monitor_def)
  show "\<exists>w'. Run decoder_rejects dial_read_fails ''exporter1'' example_monitor example_sink = Inr w' \<and>
      twemproxyMetrics w' (''total_connections'', [''exporter1'']) = Some 0 \<and>
      twemproxyMetrics w' (''current_connections'', [''exporter1'']) = Some 0 \<and>
      logged w' = [[''Error when read reply from tcp '', ''EOF''],
                   [''Failed to parse stats: '', ''unexpected end of JSON input'']]"
    by (simp add: Run_def dial_read_fails_def decoder_rejects_def parseStats_def publish_def
          zero_TwemproxyStats_def log_Println_def example_sink_def example_monitor_def)
qed

end
